theory Spec2Isabelle
  imports Complex_Main
begin

section \<open>JavaScript numbers\<close>

text \<open>
  \<^verbatim>\<open>src/InteractionPane.js\<close> holds the component twice, the second time with its
  documentation comment; the handlers of the two copies are the same, and are modelled once.

  Every quantity of the handlers is a JavaScript Number, an IEEE 754 binary64 value. A
  finite one is a real of the form \<open>m * 2 ^ e\<close> with \<open>\<bar>m\<bar> < 2 ^ 53\<close> and
  \<open>-1074 \<le> e \<le> 971\<close>; the other values are the two infinities and NaN. Every arithmetic
  operation computes the exact real result and rounds it to the nearest such value, a tie
  going to the even significand: below \<open>2 ^ -1022\<close> the spacing stays \<open>2 ^ -1074\<close>
  (gradual underflow, down to zero), and a result that rounds to \<open>2 ^ 1024\<close> or beyond is
  an infinity. The one thing left out is the sign of zero: a zero is \<open>+0\<close>.
\<close>

datatype number = Fin real | PosInf | NegInf | NaN

text \<open>The power \<open>2 ^ e\<close> for an integer \<open>e\<close>.\<close>

definition pow2 :: "int \<Rightarrow> real" where
  "pow2 e = (if 0 \<le> e then 2 ^ nat e else 1 / 2 ^ nat (- e))"

text \<open>The integer nearest to \<open>y\<close>, the even one of the two when \<open>y\<close> lies half way.\<close>

definition round_half_even :: "real \<Rightarrow> int" where
  "round_half_even y =
     (let f = \<lfloor>y\<rfloor> in
        if y - of_int f < 1 / 2 then f
        else if 1 / 2 < y - of_int f then f + 1
        else if even f then f else f + 1)"

text \<open>
  The exponent of the last place of the significand for a result \<open>x\<close>: 52 below the
  binade of \<open>x\<close>, and never below -1074.
\<close>

definition ulp_exponent :: "real \<Rightarrow> int" where
  "ulp_exponent x = max (- 1074) (\<lfloor>log 2 \<bar>x\<bar>\<rfloor> - 52)"

definition nearest :: "real \<Rightarrow> real" where
  "nearest x = of_int (round_half_even (x / pow2 (ulp_exponent x))) * pow2 (ulp_exponent x)"

text \<open>The binary64 value of an exact result.\<close>

definition round64 :: "real \<Rightarrow> number" where
  "round64 x =
     (if x = 0 then Fin 0
      else if pow2 1024 \<le> nearest x then PosInf
      else if nearest x \<le> - pow2 1024 then NegInf
      else Fin (nearest x))"

text \<open>A Number of the type: an infinity, NaN, or a real that rounding leaves as it is.\<close>

definition is_double :: "number \<Rightarrow> bool" where
  "is_double n = (case n of Fin r \<Rightarrow> round64 r = Fin r | _ \<Rightarrow> True)"

text \<open>The infinity carrying the sign of a real; the product of an infinity and zero is NaN.\<close>

definition signed_inf :: "real \<Rightarrow> number" where
  "signed_inf r = (if 0 < r then PosInf else if r < 0 then NegInf else NaN)"

fun js_neg :: "number \<Rightarrow> number" where
  "js_neg (Fin a) = Fin (- a)"
| "js_neg PosInf = NegInf"
| "js_neg NegInf = PosInf"
| "js_neg NaN = NaN"

text \<open>The operator \<^verbatim>\<open>+\<close> on Numbers.\<close>

fun js_add :: "number \<Rightarrow> number \<Rightarrow> number" where
  "js_add (Fin a) (Fin b) = round64 (a + b)"
| "js_add NaN _ = NaN"
| "js_add _ NaN = NaN"
| "js_add PosInf NegInf = NaN"
| "js_add NegInf PosInf = NaN"
| "js_add PosInf _ = PosInf"
| "js_add _ PosInf = PosInf"
| "js_add NegInf _ = NegInf"
| "js_add _ NegInf = NegInf"

text \<open>The operator \<^verbatim>\<open>-\<close>.\<close>

definition js_sub :: "number \<Rightarrow> number \<Rightarrow> number" where
  "js_sub a b = js_add a (js_neg b)"

text \<open>The operator \<^verbatim>\<open>*\<close>.\<close>

fun js_mul :: "number \<Rightarrow> number \<Rightarrow> number" where
  "js_mul (Fin a) (Fin b) = round64 (a * b)"
| "js_mul NaN _ = NaN"
| "js_mul _ NaN = NaN"
| "js_mul PosInf (Fin b) = signed_inf b"
| "js_mul NegInf (Fin b) = signed_inf (- b)"
| "js_mul (Fin a) PosInf = signed_inf a"
| "js_mul (Fin a) NegInf = signed_inf (- a)"
| "js_mul PosInf PosInf = PosInf"
| "js_mul NegInf NegInf = PosInf"
| "js_mul PosInf NegInf = NegInf"
| "js_mul NegInf PosInf = NegInf"

text \<open>
  The operator \<^verbatim>\<open>/\<close>: a nonzero finite number divided by zero is an infinity,
  \<^verbatim>\<open>0 / 0\<close> and \<^verbatim>\<open>Infinity / Infinity\<close> are NaN; nothing is raised.
\<close>

fun js_div :: "number \<Rightarrow> number \<Rightarrow> number" where
  "js_div (Fin a) (Fin b) = (if b = 0 then signed_inf a else round64 (a / b))"
| "js_div NaN _ = NaN"
| "js_div _ NaN = NaN"
| "js_div (Fin a) PosInf = Fin 0"
| "js_div (Fin a) NegInf = Fin 0"
| "js_div PosInf (Fin b) = (if 0 \<le> b then PosInf else NegInf)"
| "js_div NegInf (Fin b) = (if 0 \<le> b then NegInf else PosInf)"
| "js_div PosInf PosInf = NaN"
| "js_div PosInf NegInf = NaN"
| "js_div NegInf PosInf = NaN"
| "js_div NegInf NegInf = NaN"

text \<open>The operator \<^verbatim>\<open>>\<close>: every comparison with NaN is false.\<close>

fun js_gt :: "number \<Rightarrow> number \<Rightarrow> bool" where
  "js_gt (Fin a) (Fin b) = (b < a)"
| "js_gt NaN _ = False"
| "js_gt _ NaN = False"
| "js_gt PosInf PosInf = False"
| "js_gt PosInf _ = True"
| "js_gt NegInf _ = False"
| "js_gt (Fin a) PosInf = False"
| "js_gt (Fin a) NegInf = True"

text \<open>\<^verbatim>\<open>Math.sqrt\<close>: the rounded square root, NaN on a negative argument.\<close>

fun Math_sqrt :: "number \<Rightarrow> number" where
  "Math_sqrt (Fin a) = (if a < 0 then NaN else round64 (sqrt a))"
| "Math_sqrt PosInf = PosInf"
| "Math_sqrt NegInf = NaN"
| "Math_sqrt NaN = NaN"

text \<open>
  \<^verbatim>\<open>Math.round\<close>: the nearest integer, a tie going towards \<open>+\<infinity>\<close>. The result is exact: a
  binary64 value of magnitude \<open>2 ^ 52\<close> or more is an integer already, and below that the
  nearest integer is a binary64 value.
\<close>

fun Math_round :: "number \<Rightarrow> number" where
  "Math_round (Fin a) = Fin (of_int \<lfloor>a + 1 / 2\<rfloor>)"
| "Math_round n = n"

text \<open>\<^verbatim>\<open>Number.isFinite\<close>, used in the statements only.\<close>

fun isFinite :: "number \<Rightarrow> bool" where
  "isFinite (Fin a) = True"
| "isFinite _ = False"

section \<open>Component state and events\<close>

text \<open>
  An object \<^verbatim>\<open>{x, y}\<close>. The hooks \<^verbatim>\<open>initialTouchCenter\<close>, \<^verbatim>\<open>initialOffset\<close> and
  \<^verbatim>\<open>dragPositionOffsetStart\<close> start as the empty object \<^verbatim>\<open>{}\<close>, whose \<^verbatim>\<open>x\<close> and
  \<^verbatim>\<open>y\<close> read as \<^verbatim>\<open>undefined\<close>; the handlers use these fields as operands of arithmetic
  and of \<^verbatim>\<open>Math.round\<close> only, where \<^verbatim>\<open>undefined\<close> converts to NaN, so \<^verbatim>\<open>{}\<close> is the
  point with both coordinates NaN. The fields \<^verbatim>\<open>x\<close> and \<^verbatim>\<open>y\<close> are \<open>pt_x\<close> and \<open>pt_y\<close>
  here, which leaves \<open>x\<close> and \<open>y\<close> free as variables.
\<close>

record point =
  pt_x :: number
  pt_y :: number

definition empty_object :: point where
  "empty_object = \<lparr>pt_x = NaN, pt_y = NaN\<rparr>"

text \<open>
  The \<^verbatim>\<open>clientX\<close>, \<^verbatim>\<open>clientY\<close> of a pointer event and of one entry of
  \<^verbatim>\<open>event.touches\<close>; a wheel event carries \<^verbatim>\<open>deltaY\<close> as well.
\<close>

record client_pos =
  clientX :: number
  clientY :: number

record wheel_event = client_pos +
  deltaY :: number

record touch_event =
  touches :: "client_pos list"

text \<open>
  The props \<^verbatim>\<open>scale\<close> and \<^verbatim>\<open>offset\<close>, owned by the host and written through
  \<^verbatim>\<open>setScale\<close> and \<^verbatim>\<open>setOffset\<close>, and the seven \<^verbatim>\<open>useState\<close> hooks. A handler reads
  the values of the render it belongs to and each setter call shows in the next render, so
  a handler is a function from the state it reads to the state the next handler reads.
\<close>

record state =
  scale :: number
  offset :: point
  initialDistanceBetweenFingers :: number
  initialScale :: number
  initialTouchCenter :: point
  initialOffset :: point
  dragPositionStart :: point
  dragPositionOffsetStart :: point
  isDragging :: bool

text \<open>The state at the first render, for the props the host passes.\<close>

definition mount :: "number \<Rightarrow> point \<Rightarrow> state" where
  "mount sc off =
     \<lparr>scale = sc, offset = off,
      initialDistanceBetweenFingers = Fin 0,
      initialScale = Fin 1,
      initialTouchCenter = empty_object,
      initialOffset = empty_object,
      dragPositionStart = \<lparr>pt_x = Fin 0, pt_y = Fin 0\<rparr>,
      dragPositionOffsetStart = empty_object,
      isDragging = False\<rparr>"

text \<open>The literal \<^verbatim>\<open>0.1\<close> is the binary64 value nearest to one tenth.\<close>

definition SCROLLWHEEL_FACTOR :: number where
  "SCROLLWHEEL_FACTOR = round64 (1 / 10)"

section \<open>The handlers\<close>

definition handlePointerDown :: "state \<Rightarrow> client_pos \<Rightarrow> state" where
  "handlePointerDown st event =
     (let newDragPositionStart = \<lparr>pt_x = clientX event, pt_y = clientY event\<rparr>
      in st\<lparr>dragPositionStart := newDragPositionStart,
            dragPositionOffsetStart := offset st,
            isDragging := True\<rparr>)"

definition handlePointerUp :: "state \<Rightarrow> client_pos \<Rightarrow> state" where
  "handlePointerUp st event = st\<lparr>isDragging := False\<rparr>"

definition handlePointerMove :: "state \<Rightarrow> client_pos \<Rightarrow> state" where
  "handlePointerMove st event =
     (if isDragging st then
        (let dragPositionEnd = \<lparr>pt_x = clientX event, pt_y = clientY event\<rparr>;
             deltaX = js_sub (pt_x dragPositionEnd) (pt_x (dragPositionStart st));
             deltaY' = js_sub (pt_y dragPositionEnd) (pt_y (dragPositionStart st))
         in st\<lparr>offset :=
               \<lparr>pt_x = Math_round (js_add (pt_x (dragPositionOffsetStart st)) deltaX),
                pt_y = Math_round (js_add (pt_y (dragPositionOffsetStart st)) deltaY')\<rparr>\<rparr>)
      else st)"

text \<open>
  Both touch handlers read \<^verbatim>\<open>event.touches[0]\<close> and \<^verbatim>\<open>event.touches[1]\<close> under the
  guard \<^verbatim>\<open>event.touches.length >= 2\<close> only, where both exist.
\<close>

definition handleTouchStart :: "state \<Rightarrow> touch_event \<Rightarrow> state" where
  "handleTouchStart st event =
     (if 2 \<le> length (touches event) then
        (let t0 = touches event ! 0;
             t1 = touches event ! 1;
             distanceX = js_sub (clientX t1) (clientX t0);
             distanceY = js_sub (clientY t1) (clientY t0);
             initialDistance =
               Math_sqrt (js_add (js_mul distanceX distanceX) (js_mul distanceY distanceY));
             centerX =
               js_add (clientX t0) (js_div (js_sub (clientX t1) (clientX t0)) (Fin 2));
             centerY =
               js_add (clientY t0) (js_div (js_sub (clientY t1) (clientY t0)) (Fin 2))
         in st\<lparr>initialDistanceBetweenFingers := initialDistance,
               initialTouchCenter := \<lparr>pt_x = centerX, pt_y = centerY\<rparr>,
               initialScale := scale st,
               initialOffset := offset st\<rparr>)
      else st)"

definition handleTouchMove :: "state \<Rightarrow> touch_event \<Rightarrow> state" where
  "handleTouchMove st event =
     (if 2 \<le> length (touches event) then
        (let t0 = touches event ! 0;
             t1 = touches event ! 1;
             distanceX = js_sub (clientX t1) (clientX t0);
             distanceY = js_sub (clientY t1) (clientY t0);
             currentDistanceBetweenFingers =
               Math_sqrt (js_add (js_mul distanceX distanceX) (js_mul distanceY distanceY));
             scaleChange =
               js_div currentDistanceBetweenFingers (initialDistanceBetweenFingers st);
             newScale = js_mul (initialScale st) scaleChange;
             imageCoordinateX =
               js_div (js_sub (pt_x (initialTouchCenter st)) (pt_x (initialOffset st)))
                      (initialScale st);
             imageCoordinateY =
               js_div (js_sub (pt_y (initialTouchCenter st)) (pt_y (initialOffset st)))
                      (initialScale st);
             wouldBeNewScreenPositionX =
               js_add (js_mul imageCoordinateX newScale) (pt_x (initialOffset st));
             wouldBeNewScreenPositionY =
               js_add (js_mul imageCoordinateY newScale) (pt_y (initialOffset st));
             offsetAdjustmentX1 =
               js_sub (pt_x (initialTouchCenter st)) wouldBeNewScreenPositionX;
             offsetAdjustmentY1 =
               js_sub (pt_y (initialTouchCenter st)) wouldBeNewScreenPositionY;
             currentCenterX =
               js_add (clientX t0) (js_div (js_sub (clientX t1) (clientX t0)) (Fin 2));
             currentCenterY =
               js_add (clientY t0) (js_div (js_sub (clientY t1) (clientY t0)) (Fin 2));
             offsetAdjustmentX2 = js_sub currentCenterX (pt_x (initialTouchCenter st));
             offsetAdjustmentY2 = js_sub currentCenterY (pt_y (initialTouchCenter st))
         in st\<lparr>scale := newScale,
               offset :=
                 \<lparr>pt_x = js_add (js_add (pt_x (initialOffset st)) offsetAdjustmentX1)
                                offsetAdjustmentX2,
                  pt_y = js_add (js_add (pt_y (initialOffset st)) offsetAdjustmentY1)
                                offsetAdjustmentY2\<rparr>\<rparr>)
      else st)"

definition handleWheel :: "state \<Rightarrow> wheel_event \<Rightarrow> state" where
  "handleWheel st event =
     (let initialScale' = scale st;
          initialOffset' = offset st;
          newScale =
            (if js_gt (deltaY event) (Fin 0)
             then js_mul initialScale' (js_sub (Fin 1) SCROLLWHEEL_FACTOR)
             else js_mul initialScale' (js_add (Fin 1) SCROLLWHEEL_FACTOR));
          imageCoordinateX = js_div (js_sub (clientX event) (pt_x initialOffset')) initialScale';
          imageCoordinateY = js_div (js_sub (clientY event) (pt_y initialOffset')) initialScale';
          wouldBeNewScreenPositionX =
            js_add (js_mul imageCoordinateX newScale) (pt_x initialOffset');
          wouldBeNewScreenPositionY =
            js_add (js_mul imageCoordinateY newScale) (pt_y initialOffset');
          offsetAdjustmentX1 = js_sub (clientX event) wouldBeNewScreenPositionX;
          offsetAdjustmentY1 = js_sub (clientY event) wouldBeNewScreenPositionY
      in st\<lparr>scale := newScale,
            offset := \<lparr>pt_x = js_add (pt_x initialOffset') offsetAdjustmentX1,
                       pt_y = js_add (pt_y initialOffset') offsetAdjustmentY1\<rparr>\<rparr>)"

section \<open>Vocabulary of the statements\<close>

text \<open>
  The inner \<^verbatim>\<open>div\<close> of the render is placed at \<^verbatim>\<open>left: offset.x, top: offset.y\<close> and
  scaled about its top left corner, so a content point \<open>c\<close> shows on the screen at
  \<open>c * scale + offset\<close> (the handlers' \<^verbatim>\<open>wouldBeNewScreenPosition\<close>), and the content point
  under a screen point \<open>p\<close> is \<open>(p - offset) / scale\<close> (their \<^verbatim>\<open>imageCoordinate\<close>). Both
  are computed here as the handlers compute them, in Numbers.
\<close>

definition to_content :: "number \<Rightarrow> point \<Rightarrow> point \<Rightarrow> point" where
  "to_content sc off p =
     \<lparr>pt_x = js_div (js_sub (pt_x p) (pt_x off)) sc,
      pt_y = js_div (js_sub (pt_y p) (pt_y off)) sc\<rparr>"

definition to_screen :: "number \<Rightarrow> point \<Rightarrow> point \<Rightarrow> point" where
  "to_screen sc off c =
     \<lparr>pt_x = js_add (js_mul (pt_x c) sc) (pt_x off),
      pt_y = js_add (js_mul (pt_y c) sc) (pt_y off)\<rparr>"

text \<open>
  The distance and the midpoint of two touches, as both touch handlers compute them from
  \<^verbatim>\<open>event.touches[0]\<close> and \<^verbatim>\<open>event.touches[1]\<close>.
\<close>

definition finger_distance :: "client_pos \<Rightarrow> client_pos \<Rightarrow> number" where
  "finger_distance t0 t1 =
     (let distanceX = js_sub (clientX t1) (clientX t0);
          distanceY = js_sub (clientY t1) (clientY t0)
      in Math_sqrt (js_add (js_mul distanceX distanceX) (js_mul distanceY distanceY)))"

definition finger_center :: "client_pos \<Rightarrow> client_pos \<Rightarrow> point" where
  "finger_center t0 t1 =
     \<lparr>pt_x = js_add (clientX t0) (js_div (js_sub (clientX t1) (clientX t0)) (Fin 2)),
      pt_y = js_add (clientY t0) (js_div (js_sub (clientY t1) (clientY t0)) (Fin 2))\<rparr>"

text \<open>
  The real a finite Number stands for, and points with finite coordinates; they state how
  far a computed offset is from an exact one.
\<close>

fun the_real :: "number \<Rightarrow> real" where
  "the_real (Fin r) = r"
| "the_real n = 0"

definition finite_point :: "point \<Rightarrow> bool" where
  "finite_point p \<longleftrightarrow> isFinite (pt_x p) \<and> isFinite (pt_y p)"

text \<open>
  The offset both zoom handlers compute for one coordinate, from the focal point \<open>p\<close>, the
  offset and scale they start from and the new scale: \<^verbatim>\<open>offset + (p - (imageCoordinate *
  newScale + offset))\<close> with \<^verbatim>\<open>imageCoordinate = (p - offset) / scale\<close>.
\<close>

definition focal_adjust :: "number \<Rightarrow> number \<Rightarrow> number \<Rightarrow> number \<Rightarrow> number" where
  "focal_adjust p off sc newScale =
     js_add off (js_sub p (js_add (js_mul (js_div (js_sub p off) sc) newScale) off))"

text \<open>
  A scale above zero that is a Number of the type: an infinity, or a finite value, which is
  then at least the smallest positive one.
\<close>

definition above_zero :: "number \<Rightarrow> bool" where
  "above_zero n = (case n of Fin r \<Rightarrow> pow2 (- 1074) \<le> r | PosInf \<Rightarrow> True | _ \<Rightarrow> False)"

text \<open>
  The three parts of the state: the transform the host renders, what a two-finger touch
  start records, and what a pointer-down records.
\<close>

definition transform :: "state \<Rightarrow> number \<times> point" where
  "transform st = (scale st, offset st)"

definition pinch_snapshot :: "state \<Rightarrow> number \<times> number \<times> point \<times> point" where
  "pinch_snapshot st =
     (initialDistanceBetweenFingers st, initialScale st, initialTouchCenter st, initialOffset st)"

definition drag_session :: "state \<Rightarrow> bool \<times> point \<times> point" where
  "drag_session st = (isDragging st, dragPositionStart st, dragPositionOffsetStart st)"

text \<open>Events at given coordinates.\<close>

definition origin :: point where
  "origin = \<lparr>pt_x = Fin 0, pt_y = Fin 0\<rparr>"

definition client_at :: "real \<Rightarrow> real \<Rightarrow> client_pos" where
  "client_at a b = \<lparr>clientX = Fin a, clientY = Fin b\<rparr>"

definition wheel_at :: "real \<Rightarrow> real \<Rightarrow> real \<Rightarrow> wheel_event" where
  "wheel_at a b d = \<lparr>clientX = Fin a, clientY = Fin b, deltaY = Fin d\<rparr>"

text \<open>
  Some reachable states: the first render of a host that starts at scale 1 with no offset;
  that pane after a touch start with the fingers at \<open>(0, 0)\<close> and \<open>(2, 0)\<close>; after a touch
  start with both touches at \<open>(5, 5)\<close>; after the first touch start and a move of both
  fingers by \<open>(10, 0)\<close>; and after a pointer-down followed by the first touch start.
\<close>

definition fresh :: state where
  "fresh = mount (Fin 1) origin"

definition pinch_started :: state where
  "pinch_started = handleTouchStart fresh \<lparr>touches = [client_at 0 0, client_at 2 0]\<rparr>"

definition pinch_started_degenerate :: state where
  "pinch_started_degenerate =
     handleTouchStart fresh \<lparr>touches = [client_at 5 5, client_at 5 5]\<rparr>"

definition pinch_panned :: state where
  "pinch_panned = handleTouchMove pinch_started \<lparr>touches = [client_at 10 0, client_at 12 0]\<rparr>"

definition drag_and_pinch :: state where
  "drag_and_pinch =
     handleTouchStart (handlePointerDown fresh (client_at 0 0))
       \<lparr>touches = [client_at 0 0, client_at 2 0]\<rparr>"

text \<open>
  States of a host with other props: a pane at scale 49 after the touch start at \<open>(0, 0)\<close>
  and \<open>(2, 0)\<close>; a pane whose horizontal offset is the binary64 value just below \<open>3 / 2\<close>,
  after a pointer-down at \<open>(0, 0)\<close>; and a pane whose scale is five times the smallest
  positive binary64 value.
\<close>

definition pinch_started_49 :: state where
  "pinch_started_49 =
     handleTouchStart (mount (Fin 49) origin) \<lparr>touches = [client_at 0 0, client_at 2 0]\<rparr>"



definition tiny_scale :: real where
  "tiny_scale = 5 * pow2 (- 1074)"

definition tiny_pane :: state where
  "tiny_pane = mount (Fin tiny_scale) origin"

section \<open>Rounding to binary64\<close>

lemma pow2_powr: "pow2 e = 2 powr (of_int e)"
  by (simp add: pow2_def powr_real_of_int divide_inverse)

lemma pow2_pos [simp]: "0 < pow2 e"
  by (simp add: pow2_powr)

lemma pow2_nonneg [simp]: "0 \<le> pow2 e"
  using pow2_pos [of e] by linarith

lemma pow2_nonzero [simp]: "pow2 e \<noteq> 0"
  using pow2_pos [of e] by linarith

lemma pow2_53: "pow2 53 = 2 ^ 53"
  by (simp add: pow2_def)

lemma pow2_add: "pow2 (a + b) = pow2 a * pow2 b"
  by (simp add: pow2_powr powr_add)

lemma pow2_diff: "pow2 (a - b) = pow2 a / pow2 b"
  by (simp add: pow2_powr powr_diff)

lemma pow2_mono: "a \<le> b \<Longrightarrow> pow2 a \<le> pow2 b"
  by (simp add: pow2_powr)

lemma pow2_less_iff [simp]: "pow2 a < pow2 b \<longleftrightarrow> a < b"
  by (simp add: pow2_powr)

lemma pow2_le_iff [simp]: "pow2 a \<le> pow2 b \<longleftrightarrow> a \<le> b"
  by (simp add: pow2_powr)

lemma pow2_nat: "0 \<le> e \<Longrightarrow> pow2 e = of_int (2 ^ nat e)"
  by (simp add: pow2_def)

lemma rhe_int [simp]: "round_half_even (of_int n) = n"
  by (simp add: round_half_even_def)

lemma rhe_zero [simp]: "round_half_even 0 = 0"
  using rhe_int [of 0] by simp

lemma rhe_err: "\<bar>of_int (round_half_even y) - y\<bar> \<le> 1 / 2"
  unfolding round_half_even_def Let_def by (auto; linarith)

lemma rhe_ge_one: "1 / 2 < y \<Longrightarrow> 1 \<le> round_half_even y"
  using rhe_err [of y] by linarith

lemma rhe_nonneg: "0 \<le> y \<Longrightarrow> 0 \<le> round_half_even y"
  using rhe_err [of y] by linarith

lemma binade:
  assumes "x \<noteq> 0"
  shows "pow2 \<lfloor>log 2 \<bar>x\<bar>\<rfloor> \<le> \<bar>x\<bar>" and "\<bar>x\<bar> < pow2 (\<lfloor>log 2 \<bar>x\<bar>\<rfloor> + 1)"
  using assms floor_log_eq_powr_iff [of "\<bar>x\<bar>" 2 "\<lfloor>log 2 \<bar>x\<bar>\<rfloor>"]
  by (simp_all add: pow2_powr)

lemma ulp_exponent_at:
  assumes "pow2 k \<le> \<bar>x\<bar>" and "\<bar>x\<bar> < pow2 (k + 1)"
  shows "ulp_exponent x = max (- 1074) (k - 52)"
proof -
  have "0 < \<bar>x\<bar>" using assms(1) pow2_pos [of k] by linarith
  then have "\<lfloor>log 2 \<bar>x\<bar>\<rfloor> = k"
    using assms floor_log_eq_powr_iff [of "\<bar>x\<bar>" 2 k] by (simp add: pow2_powr)
  then show ?thesis by (simp add: ulp_exponent_def)
qed

lemma ulp_exponent_ge [simp]: "- 1074 \<le> ulp_exponent x"
  by (simp add: ulp_exponent_def)

lemma nearest_err: "\<bar>nearest x - x\<bar> \<le> pow2 (ulp_exponent x) / 2"
proof -
  define p where "p = pow2 (ulp_exponent x)"
  define r where "r = round_half_even (x / p)"
  have p: "0 < p" by (simp add: p_def)
  have "\<bar>nearest x - x\<bar> = \<bar>(of_int r - x / p) * p\<bar>"
    using p by (simp add: nearest_def r_def p_def left_diff_distrib)
  also have "\<dots> = \<bar>of_int r - x / p\<bar> * p"
    using p by (simp add: abs_mult)
  also have "\<dots> \<le> 1 / 2 * p"
    unfolding r_def using p by (intro mult_right_mono rhe_err) simp
  finally show ?thesis by (simp add: p_def)
qed

lemma ulp_small:
  assumes "x \<noteq> 0"
  shows "pow2 (ulp_exponent x) \<le> max (pow2 (- 1074)) (\<bar>x\<bar> * pow2 (- 52))"
proof (cases "\<lfloor>log 2 \<bar>x\<bar>\<rfloor> - 52 \<le> - 1074")
  case True
  then have "ulp_exponent x = - 1074" by (simp add: ulp_exponent_def)
  then show ?thesis by simp
next
  case False
  then have "ulp_exponent x = \<lfloor>log 2 \<bar>x\<bar>\<rfloor> - 52" by (simp add: ulp_exponent_def)
  then have "pow2 (ulp_exponent x) = pow2 \<lfloor>log 2 \<bar>x\<bar>\<rfloor> * pow2 (- 52)"
    using pow2_add [of "\<lfloor>log 2 \<bar>x\<bar>\<rfloor>" "- 52"] by simp
  also have "\<dots> \<le> \<bar>x\<bar> * pow2 (- 52)"
    using binade(1) [OF assms] by (intro mult_right_mono) simp_all
  finally show ?thesis by simp
qed


lemma floor_log_less:
  assumes "x \<noteq> 0" and "\<bar>x\<bar> < pow2 k"
  shows "\<lfloor>log 2 \<bar>x\<bar>\<rfloor> < k"
proof -
  have "pow2 \<lfloor>log 2 \<bar>x\<bar>\<rfloor> < pow2 k"
    using binade(1) [OF assms(1)] assms(2) by linarith
  then show ?thesis by simp
qed

lemma ulp_exponent_subnormal:
  assumes "x \<noteq> 0" and "\<bar>x\<bar> < pow2 (- 1022)"
  shows "ulp_exponent x = - 1074"
  using floor_log_less [OF assms] unfolding ulp_exponent_def by linarith

lemma nearest_exact:
  assumes "\<bar>m\<bar> < 2 ^ 53" and "- 1074 \<le> e"
  shows "nearest (of_int m * pow2 e) = of_int m * pow2 e"
proof (cases "m = 0")
  case True
  then show ?thesis by (simp add: nearest_def)
next
  case False
  define x where "x = of_int m * pow2 e"
  define e' where "e' = ulp_exponent x"
  have x0: "x \<noteq> 0" using False by (simp add: x_def)
  have "\<bar>x\<bar> = \<bar>of_int m\<bar> * pow2 e" by (simp add: x_def abs_mult)
  also have "\<dots> < 2 ^ 53 * pow2 e"
    using assms(1) by (intro mult_strict_right_mono) simp_all
  also have "\<dots> = pow2 (e + 53)" by (simp add: pow2_add pow2_53)
  finally have "\<lfloor>log 2 \<bar>x\<bar>\<rfloor> < e + 53" by (rule floor_log_less [OF x0])
  then have le: "e' \<le> e" using assms(2) by (simp add: e'_def ulp_exponent_def)
  have "x / pow2 e' = of_int m * pow2 (e - e')" by (simp add: x_def pow2_diff)
  also have "\<dots> = of_int (m * 2 ^ nat (e - e'))" using le by (simp add: pow2_nat)
  finally have "x / pow2 e' = of_int (m * 2 ^ nat (e - e'))" .
  then have "round_half_even (x / pow2 e') = m * 2 ^ nat (e - e')"
    by (simp only: rhe_int)
  then have "nearest x = of_int (m * 2 ^ nat (e - e')) * pow2 e'"
    by (simp add: nearest_def e'_def)
  also have "\<dots> = of_int m * pow2 (e - e') * pow2 e'" using le by (simp add: pow2_nat)
  also have "\<dots> = x" by (simp add: x_def pow2_diff)
  finally show ?thesis by (simp add: x_def)
qed

lemma round64_exact:
  assumes "\<bar>m\<bar> < 2 ^ 53" and "- 1074 \<le> e" and "e \<le> 971"
  shows "round64 (of_int m * pow2 e) = Fin (of_int m * pow2 e)"
proof -
  have "\<bar>of_int m * pow2 e\<bar> = \<bar>of_int m\<bar> * pow2 e" by (simp add: abs_mult)
  also have "\<dots> < 2 ^ 53 * pow2 e"
    using assms(1) by (intro mult_strict_right_mono) simp_all
  also have "\<dots> = pow2 (e + 53)" by (simp add: pow2_add pow2_53)
  also have "\<dots> \<le> pow2 1024" using assms(3) by simp
  finally have "\<bar>of_int m * pow2 e\<bar> < pow2 1024" .
  then show ?thesis
    using nearest_exact [OF assms(1,2)] by (auto simp: round64_def)
qed

lemma round64_int: "\<bar>m\<bar> < 2 ^ 53 \<Longrightarrow> round64 (of_int m) = Fin (of_int m)"
  using round64_exact [of m 0] by (simp add: pow2_def)

lemma round64_numeral [simp]:
  "numeral n < (2 :: int) ^ 53 \<Longrightarrow> round64 (numeral n) = Fin (numeral n)"
  "numeral n < (2 :: int) ^ 53 \<Longrightarrow> round64 (- numeral n) = Fin (- numeral n)"
  using round64_int [of "numeral n"] round64_int [of "- numeral n"] by simp_all

lemma round64_zero [simp]: "round64 0 = Fin 0"
  by (simp add: round64_def)

lemma round64_one [simp]: "round64 1 = Fin 1" "round64 (- 1) = Fin (- 1)"
  using round64_int [of 1] round64_int [of "- 1"] by simp_all


lemma nearest_pos:
  assumes "pow2 (- 1075) < x"
  shows "pow2 (- 1074) \<le> nearest x"
proof -
  define e where "e = ulp_exponent x"
  have xpos: "0 < x" using assms pow2_pos [of "- 1075"] by linarith
  have half: "1 / 2 < x / pow2 e"
  proof (cases "\<lfloor>log 2 \<bar>x\<bar>\<rfloor> - 52 \<le> - 1074")
    case True
    then have e: "e = - 1074" by (simp add: e_def ulp_exponent_def)
    have "pow2 (- 1075) / pow2 (- 1074) < x / pow2 e"
      unfolding e using assms by (intro divide_strict_right_mono) simp_all
    moreover have "pow2 (- 1075) / pow2 (- 1074) = 1 / 2"
      using pow2_diff [of "- 1075" "- 1074"] by (simp add: pow2_def)
    ultimately show ?thesis by simp
  next
    case False
    then have e: "e = \<lfloor>log 2 \<bar>x\<bar>\<rfloor> - 52" by (simp add: e_def ulp_exponent_def)
    have "pow2 (e + 52) \<le> x" using binade(1) [of x] xpos by (simp add: e)
    then have "pow2 (e + 52) / pow2 e \<le> x / pow2 e"
      by (intro divide_right_mono) simp_all
    then have "pow2 52 \<le> x / pow2 e" by (simp add: pow2_add)
    moreover have "(1 / 2 :: real) < pow2 52" by (simp add: pow2_def)
    ultimately show ?thesis by linarith
  qed
  then have "1 \<le> round_half_even (x / pow2 e)" by (rule rhe_ge_one)
  then have "1 * pow2 e \<le> of_int (round_half_even (x / pow2 e)) * pow2 e"
    by (intro mult_right_mono) simp_all
  moreover have "pow2 (- 1074) \<le> pow2 e" by (simp add: e_def)
  ultimately have "pow2 (- 1074) \<le> of_int (round_half_even (x / pow2 e)) * pow2 e"
    by linarith
  then show ?thesis by (simp only: nearest_def e_def)
qed

lemma round64_at:
  assumes "pow2 k \<le> \<bar>x\<bar>" and "\<bar>x\<bar> < pow2 (k + 1)"
  shows "round64 x =
     (let e = max (- 1074) (k - 52);
          v = of_int (round_half_even (x / pow2 e)) * pow2 e
      in if pow2 1024 \<le> v then PosInf else if v \<le> - pow2 1024 then NegInf else Fin v)"
proof -
  have "0 < \<bar>x\<bar>" using assms(1) pow2_pos [of k] by linarith
  then have "x \<noteq> 0" by auto
  then show ?thesis
    by (simp add: round64_def nearest_def ulp_exponent_at [OF assms] Let_def)
qed


lemma round64_subnormal:
  assumes "x \<noteq> 0" and "\<bar>x\<bar> < pow2 (- 1022)"
  shows "round64 x =
     (let v = of_int (round_half_even (x / pow2 (- 1074))) * pow2 (- 1074)
      in if pow2 1024 \<le> v then PosInf else if v \<le> - pow2 1024 then NegInf else Fin v)"
  using assms(1) by (simp add: round64_def nearest_def ulp_exponent_subnormal [OF assms] Let_def)

lemma round64_above:
  assumes "pow2 (- 1075) < x"
  shows "above_zero (round64 x)"
proof -
  have x: "x \<noteq> 0" using assms pow2_pos [of "- 1075"] by linarith
  have n: "pow2 (- 1074) \<le> nearest x" by (rule nearest_pos [OF assms])
  have "\<not> nearest x \<le> - pow2 1024"
    using n pow2_pos [of "- 1074"] pow2_pos [of 1024] by linarith
  then show ?thesis
    using x n by (simp add: round64_def above_zero_def)
qed

lemma double_nearest:
  assumes "round64 s = Fin s"
  shows "nearest s = s" and "s < pow2 1024"
proof -
  show "nearest s = s"
    using assms by (cases "s = 0") (auto simp: round64_def nearest_def split: if_splits)
  then show "s < pow2 1024"
    using assms by (cases "s = 0") (auto simp: round64_def split: if_splits)
qed

lemma double_above:
  assumes "is_double n" and "js_gt n (Fin 0)"
  shows "above_zero n"
proof (cases n)
  case (Fin s)
  with assms have s: "round64 s = Fin s" "0 < s" by (simp_all add: is_double_def)
  define p where "p = pow2 (ulp_exponent s)"
  define r where "r = round_half_even (s / p)"
  have p: "0 < p" "pow2 (- 1074) \<le> p" by (simp_all add: p_def)
  have eq: "of_int r * p = s" using double_nearest(1) [OF s(1)] by (simp add: nearest_def r_def p_def)
  have "0 < r"
  proof (rule ccontr)
    assume "\<not> 0 < r"
    then have "of_int r \<le> (0 :: real)" by simp
    then have "of_int r * p \<le> 0" using p(1) by (simp add: mult_le_0_iff)
    with eq s(2) show False by linarith
  qed
  then have "1 * p \<le> of_int r * p" using p(1) by (intro mult_right_mono) simp_all
  with eq p(2) have "pow2 (- 1074) \<le> s" by linarith
  then show ?thesis by (simp add: Fin above_zero_def)
next
  case PosInf then show ?thesis by (simp add: above_zero_def)
next
  case NegInf with assms show ?thesis by simp
next
  case NaN with assms show ?thesis by simp
qed

lemma above_zero_gt: "above_zero n \<Longrightarrow> js_gt n (Fin 0)"
proof (cases n)
  case (Fin r)
  assume "above_zero n"
  with Fin have "pow2 (- 1074) \<le> r" by (simp add: above_zero_def)
  then have "0 < r" using pow2_pos [of "- 1074"] by linarith
  then show ?thesis by (simp add: Fin)
qed (simp_all add: above_zero_def)

lemma round64_close:
  assumes "\<bar>x\<bar> \<le> 2 ^ 100"
  obtains v where "round64 x = Fin v"
    and "\<bar>v - x\<bar> \<le> \<bar>x\<bar> * pow2 (- 53) + pow2 (- 1075)"
proof (cases "x = 0")
  case True
  then have "round64 x = Fin 0" "\<bar>0 - x\<bar> \<le> \<bar>x\<bar> * pow2 (- 53) + pow2 (- 1075)"
    by simp_all
  then show ?thesis by (rule that)
next
  case False
  have u: "pow2 (- 53) = pow2 (- 52) / 2" "pow2 (- 1075) = pow2 (- 1074) / 2"
    using pow2_diff [of "- 52" 1] pow2_diff [of "- 1074" 1] by (simp_all add: pow2_def [of 1])
  have "pow2 (ulp_exponent x) \<le> max (pow2 (- 1074)) (\<bar>x\<bar> * pow2 (- 52))"
    by (rule ulp_small [OF False])
  also have "\<dots> \<le> pow2 (- 1074) + \<bar>x\<bar> * pow2 (- 52)"
    by simp
  finally have e: "\<bar>nearest x - x\<bar> \<le> \<bar>x\<bar> * pow2 (- 53) + pow2 (- 1075)"
    using nearest_err [of x] unfolding u by linarith
  have t: "pow2 (- 1075) \<le> 1"
    using pow2_mono [of "- 1075" 0] by (simp add: pow2_def [of 0])
  have p53: "pow2 (- 53) \<le> 1"
    using pow2_mono [of "- 53" 0] by (simp add: pow2_def [of 0])
  have "\<bar>x\<bar> * pow2 (- 53) \<le> \<bar>x\<bar> * 1"
    using p53 by (intro mult_left_mono) simp_all
  then have "\<bar>nearest x\<bar> \<le> 2 * 2 ^ 100 + 1"
    using e t assms by linarith
  moreover have "(2 * 2 ^ 100 + 1 :: real) < pow2 1024"
    using pow2_mono [of 102 1024] by (simp add: pow2_def [of 102])
  ultimately have "\<not> pow2 1024 \<le> nearest x" "\<not> nearest x \<le> - pow2 1024"
    by linarith+
  then have "round64 x = Fin (nearest x)"
    using False by (simp add: round64_def)
  then show ?thesis using e by (rule that)
qed

section \<open>Numbers of the handlers\<close>

lemma js_sub_Fin [simp]: "js_sub (Fin a) (Fin b) = round64 (a - b)"
  by (simp add: js_sub_def)

lemma isFinite_iff: "isFinite n \<longleftrightarrow> (\<exists>r. n = Fin r)"
  by (cases n) simp_all

lemma client_at_sel [simp]:
  "clientX (client_at a b) = Fin a" "clientY (client_at a b) = Fin b"
  by (simp_all add: client_at_def)

lemma client_at_eq [simp]: "client_at a b = client_at c d \<longleftrightarrow> a = c \<and> b = d"
  by (simp add: client_at_def)

text \<open>The literal \<^verbatim>\<open>0.1\<close> and the two factors of the wheel handler.\<close>

lemma tenth: "SCROLLWHEEL_FACTOR = Fin (3602879701896397 / 36028797018963968)"
  using round64_at [of "- 4" "1 / 10"]
  by (simp add: SCROLLWHEEL_FACTOR_def pow2_def round_half_even_def Let_def)

lemma factor_down:
  "js_sub (Fin 1) SCROLLWHEEL_FACTOR = Fin (8106479329266893 / 9007199254740992)"
  using round64_at [of "- 1" "1 - 3602879701896397 / 36028797018963968"]
  by (simp add: tenth pow2_def round_half_even_def Let_def)

lemma factor_up:
  "js_add (Fin 1) SCROLLWHEEL_FACTOR = Fin (2476979795053773 / 2251799813685248)"
  using round64_at [of 0 "1 + 3602879701896397 / 36028797018963968"]
  by (simp add: tenth pow2_def round_half_even_def Let_def)

lemma nine_tenths: "round64 (9 / 10) = Fin (8106479329266893 / 9007199254740992)"
  using round64_at [of "- 1" "9 / 10"]
  by (simp add: pow2_def round_half_even_def Let_def)

lemma nine_tenths_double:
  "round64 (8106479329266893 / 9007199254740992) = Fin (8106479329266893 / 9007199254740992)"
  using round64_exact [of 8106479329266893 "- 53"] by (simp add: pow2_def)

lemma ninety:
  "round64 (202661983231672325 / 2251799813685248) = Fin 90"
  using round64_at [of 6 "202661983231672325 / 2251799813685248"]
  by (simp add: pow2_def round_half_even_def Let_def)

section \<open>The handlers step by step\<close>

text \<open>What a two-finger touch start stores.\<close>

lemma touch_start_snapshot:
  "handleTouchStart st \<lparr>touches = t0 # t1 # ts\<rparr> =
     st\<lparr>initialDistanceBetweenFingers := finger_distance t0 t1,
        initialTouchCenter := finger_center t0 t1,
        initialScale := scale st,
        initialOffset := offset st\<rparr>"
  by (simp add: handleTouchStart_def finger_distance_def finger_center_def Let_def)

lemma pinch_started_eq:
  "pinch_started =
     fresh\<lparr>initialDistanceBetweenFingers := Fin 2,
           initialTouchCenter := \<lparr>pt_x = Fin 1, pt_y = Fin 0\<rparr>,
           initialScale := Fin 1,
           initialOffset := origin\<rparr>"
  by (simp add: pinch_started_def touch_start_snapshot finger_distance_def finger_center_def
      fresh_def mount_def Let_def)


lemma touch_move_scale:
  "scale (handleTouchMove st \<lparr>touches = t0 # t1 # ts\<rparr>) =
     js_mul (initialScale st) (js_div (finger_distance t0 t1) (initialDistanceBetweenFingers st))"
  by (simp add: handleTouchMove_def finger_distance_def Let_def)

lemma touch_moves_snapshot:
  "initialScale (foldl handleTouchMove st moves) = initialScale st
   \<and> initialDistanceBetweenFingers (foldl handleTouchMove st moves)
       = initialDistanceBetweenFingers st"
  by (induction moves arbitrary: st) (simp_all add: handleTouchMove_def Let_def)

text \<open>Division by a recorded distance of zero, and what a product makes of it.\<close>

lemma div_zero_not_finite: "\<not> isFinite (js_div n (Fin 0))"
  by (cases n) (simp_all add: signed_inf_def)

lemma mul_not_finite: "\<not> isFinite m \<Longrightarrow> \<not> isFinite (js_mul n m)"
  by (cases n; cases m) (simp_all add: signed_inf_def)

text \<open>The scale a wheel event sets.\<close>

lemma wheel_scale:
  "scale (handleWheel st event) =
     js_mul (scale st)
       (if js_gt (deltaY event) (Fin 0)
        then Fin (8106479329266893 / 9007199254740992)
        else Fin (2476979795053773 / 2251799813685248))"
  by (simp add: handleWheel_def Let_def factor_down factor_up)

lemma wheel_above:
  assumes "above_zero (scale st)"
  shows "above_zero (scale (handleWheel st event))"
proof (cases "scale st")
  case (Fin s)
  with assms have s: "pow2 (- 1074) \<le> s" by (simp add: above_zero_def)
  have half: "pow2 (- 1075) = pow2 (- 1074) / 2"
    using pow2_diff [of "- 1074" 1] by (simp add: pow2_def)
  have pos: "0 < pow2 (- 1074)" by simp
  have "pow2 (- 1075) < s * (8106479329266893 / 9007199254740992)"
    and "pow2 (- 1075) < s * (2476979795053773 / 2251799813685248)"
    using s pos unfolding half by linarith+
  then show ?thesis
    by (simp add: wheel_scale Fin round64_above)
next
  case PosInf then show ?thesis by (simp add: wheel_scale signed_inf_def above_zero_def)
next
  case NegInf with assms show ?thesis by (simp add: above_zero_def)
next
  case NaN with assms show ?thesis by (simp add: above_zero_def)
qed

lemma wheels_above:
  "above_zero (scale st) \<Longrightarrow> above_zero (scale (foldl handleWheel st events))"
  by (induction events arbitrary: st) (simp_all add: wheel_above)

section \<open>Zoom about a focal point\<close>

text \<open>
  One coordinate of the focal adjustment, for a focal point and an offset of magnitude at
  most \<open>2 ^ 20\<close>, a scale between \<open>2 ^ -20\<close> and \<open>2 ^ 20\<close> and a new scale of at most
  1024 times the scale: the six roundings together move the image of the content point by
  at most \<open>2 ^ -17\<close>.
\<close>

lemma focal_adjust_close:
  fixes P ofs s s' :: real
  assumes P: "\<bar>P\<bar> \<le> 2 ^ 20" and ofs: "\<bar>ofs\<bar> \<le> 2 ^ 20"
    and s: "1 / 2 ^ 20 \<le> s" "s \<le> 2 ^ 20"
    and s': "0 \<le> s'" "s' \<le> 1024 * s"
  obtains ofs' where "focal_adjust (Fin P) (Fin ofs) (Fin s) (Fin s') = Fin ofs'"
    and "\<bar>(P - ofs) / s * s' + ofs' - P\<bar> \<le> 1 / 2 ^ 17"
    and "\<bar>ofs'\<bar> \<le> 2 ^ 34"
proof -
  define u where "u = pow2 (- 53)"
  define t where "t = pow2 (- 1075)"
  have u: "u = 1 / 2 ^ 53" by (simp add: u_def pow2_def)
  have t: "0 < t" "t \<le> 1 / 2 ^ 100"
    using pow2_mono [of "- 1075" "- 100"] by (simp_all add: t_def pow2_def [of "- 100"])
  have spos: "0 < s" using s(1) by (simp add: field_simps; linarith)
  have ratio: "s' / s \<le> 1024" using s'(2) spos by (simp add: divide_le_eq)
  have inv: "1 / s \<le> 2 ^ 20" using s(1) spos by (simp add: field_simps)
  define a where "a = P - ofs"
  have a: "\<bar>a\<bar> \<le> 2 ^ 21" using P ofs by (simp add: a_def)
  obtain a1 where r1: "round64 (P - ofs) = Fin a1" and "\<bar>a1 - a\<bar> \<le> \<bar>a\<bar> * u + t"
    using round64_close [of "P - ofs"] a unfolding a_def u_def t_def by (auto; linarith)
  then have e1: "\<bar>a1 - a\<bar> \<le> 2 ^ 21 * u + t"
    using a mult_right_mono [of "\<bar>a\<bar>" "2 ^ 21" u] by (simp add: u)
  then have a1: "\<bar>a1\<bar> \<le> 2 ^ 22" using a t by (simp add: u)
  define q where "q = a1 / s"
  have q: "\<bar>q\<bar> \<le> 2 ^ 42"
  proof -
    have "\<bar>q\<bar> = \<bar>a1\<bar> * (1 / s)" using spos by (simp add: q_def)
    also have "\<dots> \<le> 2 ^ 22 * 2 ^ 20"
      using a1 inv spos by (intro mult_mono) simp_all
    finally show ?thesis by simp
  qed
  obtain c where r2: "round64 (a1 / s) = Fin c" and e2: "\<bar>c - q\<bar> \<le> \<bar>q\<bar> * u + t"
    using round64_close [of "a1 / s"] q unfolding q_def u_def t_def by (auto; linarith)
  have qs: "\<bar>q\<bar> * s' \<le> 2 ^ 32"
  proof -
    have "\<bar>q\<bar> * s' = \<bar>a1\<bar> * (s' / s)" using spos by (simp add: q_def)
    also have "\<dots> \<le> 2 ^ 22 * 1024"
      using a1 ratio s'(1) spos by (intro mult_mono) simp_all
    finally show ?thesis by simp
  qed
  have s'b: "s' \<le> 2 ^ 30" using s'(2) s(2) by simp
  have cq: "\<bar>c * s' - q * s'\<bar> \<le> 2 ^ 32 * u + t * 2 ^ 30"
  proof -
    have "\<bar>c * s' - q * s'\<bar> = \<bar>c - q\<bar> * s'"
      using s'(1) by (simp add: left_diff_distrib [symmetric] abs_mult)
    also have "\<dots> \<le> (\<bar>q\<bar> * u + t) * s'"
      using e2 s'(1) by (intro mult_right_mono) simp_all
    also have "\<dots> = (\<bar>q\<bar> * s') * u + t * s'" by (simp add: algebra_simps)
    also have "\<dots> \<le> 2 ^ 32 * u + t * 2 ^ 30"
      using qs s'b t(1) by (intro add_mono mult_right_mono mult_left_mono) (simp_all add: u)
    finally show ?thesis .
  qed
  have aq: "\<bar>a / s * s' - q * s'\<bar> \<le> 2 ^ 31 * u + t * 1024"
  proof -
    have "a / s * s' - q * s' = (a - a1) * (s' / s)"
      using spos by (simp add: q_def field_simps)
    then have "\<bar>a / s * s' - q * s'\<bar> = \<bar>a1 - a\<bar> * (s' / s)"
      using s'(1) spos by (simp add: abs_mult abs_minus_commute)
    also have "\<dots> \<le> (2 ^ 21 * u + t) * 1024"
      using e1 ratio s'(1) spos by (intro mult_mono) (simp_all add: u)
    finally show ?thesis by (simp add: algebra_simps)
  qed
  define x1 where "x1 = c * s'"
  have x1: "\<bar>x1\<bar> \<le> 2 ^ 33"
  proof -
    have "\<bar>q * s'\<bar> \<le> 2 ^ 32" using qs s'(1) by (simp add: abs_mult)
    then show ?thesis using cq t unfolding x1_def by (simp add: u; linarith)
  qed
  obtain p where r3: "round64 (c * s') = Fin p" and "\<bar>p - x1\<bar> \<le> \<bar>x1\<bar> * u + t"
    using round64_close [of "c * s'"] x1 unfolding x1_def u_def t_def by (auto; linarith)
  then have e3: "\<bar>p - x1\<bar> \<le> 2 ^ 33 * u + t"
    using x1 mult_right_mono [of "\<bar>x1\<bar>" "2 ^ 33" u] by (simp add: u)
  have x2: "\<bar>p + ofs\<bar> \<le> 2 ^ 33 + 2 ^ 20 + 1" using e3 x1 ofs t by (simp add: u; linarith)
  obtain w where r4: "round64 (p + ofs) = Fin w" and "\<bar>w - (p + ofs)\<bar> \<le> \<bar>p + ofs\<bar> * u + t"
    using round64_close [of "p + ofs"] x2 unfolding u_def t_def by (auto; linarith)
  then have e4: "\<bar>w - (p + ofs)\<bar> \<le> 2 ^ 34 * u + t"
    using x2 mult_right_mono [of "\<bar>p + ofs\<bar>" "2 ^ 34" u] by (simp add: u)
  have x3: "\<bar>P - w\<bar> \<le> 2 ^ 33 + 2 ^ 21 + 2" using e4 x2 P t by (simp add: u; linarith)
  obtain adj where r5: "round64 (P - w) = Fin adj" and "\<bar>adj - (P - w)\<bar> \<le> \<bar>P - w\<bar> * u + t"
    using round64_close [of "P - w"] x3 unfolding u_def t_def by (auto; linarith)
  then have e5: "\<bar>adj - (P - w)\<bar> \<le> 2 ^ 34 * u + t"
    using x3 mult_right_mono [of "\<bar>P - w\<bar>" "2 ^ 34" u] by (simp add: u)
  have x4: "\<bar>ofs + adj\<bar> \<le> 2 ^ 33 + 2 ^ 22 + 3" using e5 x3 ofs t by (simp add: u; linarith)
  obtain ofs' where r6: "round64 (ofs + adj) = Fin ofs'" and "\<bar>ofs' - (ofs + adj)\<bar> \<le> \<bar>ofs + adj\<bar> * u + t"
    using round64_close [of "ofs + adj"] x4 unfolding u_def t_def by (auto; linarith)
  then have e6: "\<bar>ofs' - (ofs + adj)\<bar> \<le> 2 ^ 34 * u + t"
    using x4 mult_right_mono [of "\<bar>ofs + adj\<bar>" "2 ^ 34" u] by (simp add: u)
  have "focal_adjust (Fin P) (Fin ofs) (Fin s) (Fin s') = Fin ofs'"
    using spos by (simp add: focal_adjust_def r1 r2 r3 r4 r5 r6)
  moreover have "\<bar>(P - ofs) / s * s' + ofs' - P\<bar> \<le> 1 / 2 ^ 17"
  proof -
    define A where "A = (P - ofs) / s * s'"
    define Q where "Q = q * s'"
    have n: "2 ^ 31 * u = 1 / 4194304" "2 ^ 32 * u = 1 / 2097152" "2 ^ 33 * u = 1 / 1048576"
      "2 ^ 34 * u = 1 / 524288" "t * 2 ^ 30 = t * 1073741824"
      "t \<le> 1 / 1267650600228229401496703205376"
      using t(2) by (simp_all add: u)
    have "\<bar>A - Q\<bar> \<le> 1 / 4194304 + t * 1024"
      and "\<bar>x1 - Q\<bar> \<le> 1 / 2097152 + t * 1073741824"
      and "\<bar>p - x1\<bar> \<le> 1 / 1048576 + t"
      and "\<bar>w - (p + ofs)\<bar> \<le> 1 / 524288 + t"
      and "\<bar>adj - (P - w)\<bar> \<le> 1 / 524288 + t"
      and "\<bar>ofs' - (ofs + adj)\<bar> \<le> 1 / 524288 + t"
      using aq cq e3 e4 e5 e6 unfolding A_def Q_def x1_def a_def n by simp_all
    then have "\<bar>A + ofs' - P\<bar> \<le> 1 / 131072"
      using n(6) t(1) by linarith
    then show ?thesis by (simp add: A_def)
  qed
  moreover have "\<bar>ofs'\<bar> \<le> 2 ^ 34"
    using e6 x4 t by (simp add: u; linarith)
  ultimately show ?thesis by (rule that)
qed


lemma wheel_offset:
  "offset (handleWheel st event) =
     \<lparr>pt_x = focal_adjust (clientX event) (pt_x (offset st)) (scale st)
               (scale (handleWheel st event)),
      pt_y = focal_adjust (clientY event) (pt_y (offset st)) (scale st)
               (scale (handleWheel st event))\<rparr>"
  by (simp add: handleWheel_def focal_adjust_def Let_def)

lemma touch_move_offset:
  "offset (handleTouchMove st \<lparr>touches = t0 # t1 # ts\<rparr>) =
     \<lparr>pt_x = js_add (focal_adjust (pt_x (initialTouchCenter st)) (pt_x (initialOffset st))
                      (initialScale st) (scale (handleTouchMove st \<lparr>touches = t0 # t1 # ts\<rparr>)))
                   (js_sub (pt_x (finger_center t0 t1)) (pt_x (initialTouchCenter st))),
      pt_y = js_add (focal_adjust (pt_y (initialTouchCenter st)) (pt_y (initialOffset st))
                      (initialScale st) (scale (handleTouchMove st \<lparr>touches = t0 # t1 # ts\<rparr>)))
                   (js_sub (pt_y (finger_center t0 t1)) (pt_y (initialTouchCenter st)))\<rparr>"
  by (simp add: handleTouchMove_def focal_adjust_def finger_center_def Let_def)

lemma wheel_scale_close:
  assumes "1 / 2 ^ 20 \<le> s" and "s \<le> 2 ^ 20" and "scale st = Fin s"
  obtains s' where "scale (handleWheel st event) = Fin s'" and "0 \<le> s'" and "s' \<le> 1024 * s"
proof -
  define f :: real where "f = (if js_gt (deltaY event) (Fin 0)
        then 8106479329266893 / 9007199254740992 else 2476979795053773 / 2251799813685248)"
  have f: "0 < f" "f \<le> 2" by (simp_all add: f_def)
  have spos: "0 < s" using assms(1) by (simp add: field_simps; linarith)
  have sc: "scale (handleWheel st event) = round64 (s * f)"
    by (simp add: wheel_scale assms(3) f_def)
  have b: "0 \<le> s * f" "s * f \<le> s * 2" using f spos by simp_all
  then have "\<bar>s * f\<bar> \<le> 2 ^ 100" using assms(2) by simp
  then obtain v where v: "round64 (s * f) = Fin v"
    and e: "\<bar>v - s * f\<bar> \<le> \<bar>s * f\<bar> * pow2 (- 53) + pow2 (- 1075)"
    by (rule round64_close)
  have u: "pow2 (- 53) = 1 / 9007199254740992" by (simp add: pow2_def)
  have t: "pow2 (- 1075) \<le> 1 / 2 ^ 20"
    using pow2_mono [of "- 1075" "- 20"] by (simp add: pow2_def [of "- 20"])
  have "\<bar>s * f\<bar> * pow2 (- 53) \<le> s * 2 * (1 / 9007199254740992)"
    unfolding u using b by (intro mult_right_mono) simp_all
  then have "\<bar>v - s * f\<bar> \<le> s * 2 * (1 / 9007199254740992) + s"
    using e t assms(1) by simp
  then have "v \<le> 1024 * s" using b spos by (simp add: abs_le_iff; linarith)
  moreover have "0 \<le> v"
  proof -
    have "above_zero (round64 (s * f))"
    proof (rule round64_above)
      have "pow2 (- 1075) \<le> pow2 (- 21)" by (simp del: pow2_pos)
      also have "\<dots> < s * f"
      proof -
        have "pow2 (- 21) = 1 / 2 ^ 20 / 2" by (simp add: pow2_def)
        also have "\<dots> \<le> s / 2" using assms(1) by simp
        also have "\<dots> < s * f" using spos by (simp add: f_def)
        finally show ?thesis .
      qed
      finally show "pow2 (- 1075) < s * f" .
    qed
    then have "pow2 (- 1074) \<le> v" by (simp add: v above_zero_def)
    then show ?thesis using pow2_pos [of "- 1074"] by linarith
  qed
  ultimately show ?thesis using sc v that by simp
qed


lemma wheel_focal:
  assumes sc: "scale st = Fin s" "1 / 2 ^ 20 \<le> s" "s \<le> 2 ^ 20"
    and off: "offset st = \<lparr>pt_x = Fin ox, pt_y = Fin oy\<rparr>" "\<bar>ox\<bar> \<le> 2 ^ 20" "\<bar>oy\<bar> \<le> 2 ^ 20"
    and ev: "clientX event = Fin px" "clientY event = Fin py" "\<bar>px\<bar> \<le> 2 ^ 20" "\<bar>py\<bar> \<le> 2 ^ 20"
  shows "isFinite (scale (handleWheel st event)) \<and> finite_point (offset (handleWheel st event))
     \<and> \<bar>(px - ox) / s * the_real (scale (handleWheel st event))
          + the_real (pt_x (offset (handleWheel st event))) - px\<bar> \<le> 1 / 2 ^ 16
     \<and> \<bar>(py - oy) / s * the_real (scale (handleWheel st event))
          + the_real (pt_y (offset (handleWheel st event))) - py\<bar> \<le> 1 / 2 ^ 16"
proof -
  obtain s' where s': "scale (handleWheel st event) = Fin s'" "0 \<le> s'" "s' \<le> 1024 * s"
    using wheel_scale_close [OF sc(2,3,1)] by blast
  obtain x' where x: "focal_adjust (Fin px) (Fin ox) (Fin s) (Fin s') = Fin x'"
    "\<bar>(px - ox) / s * s' + x' - px\<bar> \<le> 1 / 2 ^ 17"
    using focal_adjust_close [OF ev(3) off(2) sc(2,3) s'(2,3)] by blast
  obtain y' where y: "focal_adjust (Fin py) (Fin oy) (Fin s) (Fin s') = Fin y'"
    "\<bar>(py - oy) / s * s' + y' - py\<bar> \<le> 1 / 2 ^ 17"
    using focal_adjust_close [OF ev(4) off(3) sc(2,3) s'(2,3)] by blast
  have "offset (handleWheel st event) = \<lparr>pt_x = Fin x', pt_y = Fin y'\<rparr>"
    using x(1) y(1) by (simp add: wheel_offset [of st event] s'(1) sc(1) off(1) ev(1,2))
  then show ?thesis
    using x(2) y(2) by (simp add: s'(1) finite_point_def)
qed

lemma pinch_focal:
  assumes sc: "initialScale st = Fin s0" "1 / 2 ^ 20 \<le> s0" "s0 \<le> 2 ^ 20"
    and off: "initialOffset st = \<lparr>pt_x = Fin ox, pt_y = Fin oy\<rparr>"
      "\<bar>ox\<bar> \<le> 2 ^ 20" "\<bar>oy\<bar> \<le> 2 ^ 20"
    and cen: "initialTouchCenter st = \<lparr>pt_x = Fin cx, pt_y = Fin cy\<rparr>"
      "\<bar>cx\<bar> \<le> 2 ^ 20" "\<bar>cy\<bar> \<le> 2 ^ 20"
    and mid: "finger_center t0 t1 = initialTouchCenter st"
    and new: "scale (handleTouchMove st \<lparr>touches = t0 # t1 # ts\<rparr>) = Fin s'"
      "0 \<le> s'" "s' \<le> 1024 * s0"
  shows "finite_point (offset (handleTouchMove st \<lparr>touches = t0 # t1 # ts\<rparr>))
     \<and> \<bar>(cx - ox) / s0 * s'
          + the_real (pt_x (offset (handleTouchMove st \<lparr>touches = t0 # t1 # ts\<rparr>))) - cx\<bar>
         \<le> 1 / 2 ^ 16
     \<and> \<bar>(cy - oy) / s0 * s'
          + the_real (pt_y (offset (handleTouchMove st \<lparr>touches = t0 # t1 # ts\<rparr>))) - cy\<bar>
         \<le> 1 / 2 ^ 16"
proof -
  have u: "pow2 (- 53) = 1 / 9007199254740992" by (simp add: pow2_def)
  have t: "pow2 (- 1075) \<le> 1 / 2 ^ 20"
    using pow2_mono [of "- 1075" "- 20"] by (simp add: pow2_def [of "- 20"])
  have last: "\<exists>w. round64 v = Fin w \<and> \<bar>w - v\<bar> \<le> 1 / 2 ^ 18" if "\<bar>v\<bar> \<le> 2 ^ 34" for v
  proof -
    have "\<bar>v\<bar> \<le> 2 ^ 100" using that by simp
    then obtain w where w: "round64 v = Fin w"
      "\<bar>w - v\<bar> \<le> \<bar>v\<bar> * pow2 (- 53) + pow2 (- 1075)"
      by (rule round64_close)
    have "\<bar>v\<bar> * pow2 (- 53) \<le> 2 ^ 34 * (1 / 9007199254740992)"
      unfolding u using that by (intro mult_right_mono) simp_all
    then have "\<bar>w - v\<bar> \<le> 1 / 2 ^ 18" using w(2) t by simp
    with w(1) show ?thesis by blast
  qed
  obtain x' where x: "focal_adjust (Fin cx) (Fin ox) (Fin s0) (Fin s') = Fin x'"
    "\<bar>(cx - ox) / s0 * s' + x' - cx\<bar> \<le> 1 / 2 ^ 17" "\<bar>x'\<bar> \<le> 2 ^ 34"
    using focal_adjust_close [OF cen(2) off(2) sc(2,3) new(2,3)] by blast
  obtain y' where y: "focal_adjust (Fin cy) (Fin oy) (Fin s0) (Fin s') = Fin y'"
    "\<bar>(cy - oy) / s0 * s' + y' - cy\<bar> \<le> 1 / 2 ^ 17" "\<bar>y'\<bar> \<le> 2 ^ 34"
    using focal_adjust_close [OF cen(3) off(3) sc(2,3) new(2,3)] by blast
  obtain x'' where x'': "round64 x' = Fin x''" "\<bar>x'' - x'\<bar> \<le> 1 / 2 ^ 18"
    using last [OF x(3)] by blast
  obtain y'' where y'': "round64 y' = Fin y''" "\<bar>y'' - y'\<bar> \<le> 1 / 2 ^ 18"
    using last [OF y(3)] by blast
  have "offset (handleTouchMove st \<lparr>touches = t0 # t1 # ts\<rparr>) = \<lparr>pt_x = Fin x'', pt_y = Fin y''\<rparr>"
    by (simp add: touch_move_offset [of st t0 t1 ts] new(1) sc(1) off(1) cen(1) mid x(1) y(1)
        x''(1) y''(1))
  moreover have "\<bar>A + w'' - c\<bar> \<le> 1 / 2 ^ 16"
    if "\<bar>A + w' - c\<bar> \<le> 1 / 2 ^ 17" and "\<bar>w'' - w'\<bar> \<le> 1 / 2 ^ 18"
    for A w' w'' c :: real
  proof -
    have "\<bar>A + w' - c\<bar> \<le> 1 / 131072" "\<bar>w'' - w'\<bar> \<le> 1 / 262144"
      using that by simp_all
    then have "\<bar>A + w'' - c\<bar> \<le> 1 / 65536" by linarith
    then show ?thesis by simp
  qed
  ultimately show ?thesis
    using x(2) y(2) x''(2) y''(2) by (simp add: finite_point_def)
qed

lemma pinch_started_fields:
  "scale pinch_started = Fin 1"
  "offset pinch_started = \<lparr>pt_x = Fin 0, pt_y = Fin 0\<rparr>"
  "initialScale pinch_started = Fin 1"
  "initialOffset pinch_started = \<lparr>pt_x = Fin 0, pt_y = Fin 0\<rparr>"
  "initialTouchCenter pinch_started = \<lparr>pt_x = Fin 1, pt_y = Fin 0\<rparr>"
  "initialDistanceBetweenFingers pinch_started = Fin 2"
  by (simp_all add: pinch_started_eq fresh_def mount_def origin_def)

lemma pinch_degenerate_fields:
  "scale pinch_started_degenerate = Fin 1"
  "offset pinch_started_degenerate = \<lparr>pt_x = Fin 0, pt_y = Fin 0\<rparr>"
  "initialScale pinch_started_degenerate = Fin 1"
  "initialOffset pinch_started_degenerate = \<lparr>pt_x = Fin 0, pt_y = Fin 0\<rparr>"
  "initialTouchCenter pinch_started_degenerate = \<lparr>pt_x = Fin 5, pt_y = Fin 5\<rparr>"
  "initialDistanceBetweenFingers pinch_started_degenerate = Fin 0"
  by (simp_all add: pinch_started_degenerate_def touch_start_snapshot finger_distance_def
      finger_center_def fresh_def mount_def origin_def Let_def)

lemma pinch_panned_eq:
  "pinch_panned = pinch_started\<lparr>scale := Fin 1, offset := \<lparr>pt_x = Fin 10, pt_y = Fin 0\<rparr>\<rparr>"
  by (simp add: pinch_panned_def pinch_started_eq handleTouchMove_def fresh_def mount_def
      origin_def Let_def)

text \<open>
  C1, focal invariance, as the handlers have it: up to rounding, and for the pinch measured
  from the session start. Take coordinates and offsets of magnitude at most \<open>2 ^ 20\<close> and
  a scale between \<open>2 ^ -20\<close> and \<open>2 ^ 20\<close>. Wheel: after a wheel event at the cursor \<open>P\<close>
  the scale and the offset are finite, and the content point that was under \<open>P\<close> before,
  \<open>(P - offset) / scale\<close>, shows within \<open>2 ^ -16\<close> of \<open>P\<close> in each coordinate. Pinch: after a
  move whose finger midpoint is the recorded touch centre and which sets a finite scale of
  at most 1024 times the recorded one, the offset is finite and the content point that
  was under the centre when the session started,
  \<open>(centre - startOffset) / startScale\<close>, shows within \<open>2 ^ -16\<close> of the centre. The content
  point and its image are taken in exact arithmetic, the scale and offset are the
  binary64 values the handlers set.
\<close>

theorem focal_invariance:
  "(scale st = Fin s \<and> 1 / 2 ^ 20 \<le> s \<and> s \<le> 2 ^ 20
      \<and> offset st = \<lparr>pt_x = Fin ox, pt_y = Fin oy\<rparr> \<and> \<bar>ox\<bar> \<le> 2 ^ 20 \<and> \<bar>oy\<bar> \<le> 2 ^ 20
      \<and> clientX event = Fin px \<and> clientY event = Fin py \<and> \<bar>px\<bar> \<le> 2 ^ 20 \<and> \<bar>py\<bar> \<le> 2 ^ 20
    \<longrightarrow>
      isFinite (scale (handleWheel st event)) \<and> finite_point (offset (handleWheel st event))
      \<and> \<bar>(px - ox) / s * the_real (scale (handleWheel st event))
           + the_real (pt_x (offset (handleWheel st event))) - px\<bar> \<le> 1 / 2 ^ 16
      \<and> \<bar>(py - oy) / s * the_real (scale (handleWheel st event))
           + the_real (pt_y (offset (handleWheel st event))) - py\<bar> \<le> 1 / 2 ^ 16)
   \<and> (initialScale st = Fin s0 \<and> 1 / 2 ^ 20 \<le> s0 \<and> s0 \<le> 2 ^ 20
      \<and> initialOffset st = \<lparr>pt_x = Fin ix, pt_y = Fin iy\<rparr> \<and> \<bar>ix\<bar> \<le> 2 ^ 20 \<and> \<bar>iy\<bar> \<le> 2 ^ 20
      \<and> initialTouchCenter st = \<lparr>pt_x = Fin cx, pt_y = Fin cy\<rparr>
      \<and> \<bar>cx\<bar> \<le> 2 ^ 20 \<and> \<bar>cy\<bar> \<le> 2 ^ 20
      \<and> finger_center t0 t1 = initialTouchCenter st
      \<and> scale (handleTouchMove st \<lparr>touches = t0 # t1 # ts\<rparr>) = Fin s'
      \<and> 0 \<le> s' \<and> s' \<le> 1024 * s0
    \<longrightarrow>
      finite_point (offset (handleTouchMove st \<lparr>touches = t0 # t1 # ts\<rparr>))
      \<and> \<bar>(cx - ix) / s0 * s'
           + the_real (pt_x (offset (handleTouchMove st \<lparr>touches = t0 # t1 # ts\<rparr>))) - cx\<bar>
          \<le> 1 / 2 ^ 16
      \<and> \<bar>(cy - iy) / s0 * s'
           + the_real (pt_y (offset (handleTouchMove st \<lparr>touches = t0 # t1 # ts\<rparr>))) - cy\<bar>
          \<le> 1 / 2 ^ 16)"
  using wheel_focal [of st s ox oy event px py]
    pinch_focal [of st s0 ix iy cx cy t0 t1 ts s']
  by blast

text \<open>
  Both parts on the pane whose pinch started at \<open>(0, 0)\<close> and \<open>(2, 0)\<close>: a wheel event at
  \<open>(100, 100)\<close>, and a move to \<open>(-1, 0)\<close> and \<open>(3, 0)\<close>, which doubles the distance about
  the centre \<open>(1, 0)\<close>.
\<close>

theorem focal_invariance_witness:
  "scale pinch_started = Fin 1 \<and> 1 / 2 ^ 20 \<le> (1 :: real) \<and> (1 :: real) \<le> 2 ^ 20
   \<and> offset pinch_started = \<lparr>pt_x = Fin 0, pt_y = Fin 0\<rparr>
   \<and> isFinite (scale (handleWheel pinch_started (wheel_at 100 100 1)))
   \<and> finite_point (offset (handleWheel pinch_started (wheel_at 100 100 1)))
   \<and> \<bar>(100 - 0) / 1 * the_real (scale (handleWheel pinch_started (wheel_at 100 100 1)))
        + the_real (pt_x (offset (handleWheel pinch_started (wheel_at 100 100 1)))) - 100\<bar>
       \<le> 1 / 2 ^ 16
   \<and> initialScale pinch_started = Fin 1
   \<and> initialTouchCenter pinch_started = \<lparr>pt_x = Fin 1, pt_y = Fin 0\<rparr>
   \<and> finger_center (client_at (- 1) 0) (client_at 3 0) = initialTouchCenter pinch_started
   \<and> scale (handleTouchMove pinch_started \<lparr>touches = [client_at (- 1) 0, client_at 3 0]\<rparr>) = Fin 2
   \<and> finite_point
         (offset (handleTouchMove pinch_started \<lparr>touches = [client_at (- 1) 0, client_at 3 0]\<rparr>))
   \<and> \<bar>(1 - 0) / 1 * 2
        + the_real (pt_x (offset (handleTouchMove pinch_started
                                   \<lparr>touches = [client_at (- 1) 0, client_at 3 0]\<rparr>))) - 1\<bar>
       \<le> 1 / 2 ^ 16"
proof -
  have sc: "scale (handleTouchMove pinch_started \<lparr>touches = [client_at (- 1) 0, client_at 3 0]\<rparr>)
      = Fin 2"
    by (simp add: touch_move_scale pinch_started_eq finger_distance_def fresh_def mount_def Let_def)
  have mid: "finger_center (client_at (- 1) 0) (client_at 3 0) = \<lparr>pt_x = Fin 1, pt_y = Fin 0\<rparr>"
    by (simp add: finger_center_def)
  show ?thesis
    using focal_invariance [of pinch_started 1 0 0 "wheel_at 100 100 1" 100 100 1 0 0 1 0
        "client_at (- 1) 0" "client_at 3 0" "[]" 2]
    by (simp add: sc mid pinch_started_fields wheel_at_def)
qed

text \<open>
  Two pinch moves whose midpoint is the recorded centre, from states of scale 1, after which
  the content point that was under the centre before the move is not under it. After a
  touch start with both touches at \<open>(5, 5)\<close> the recorded distance is 0, a move to
  \<open>(4, 5)\<close> and \<open>(6, 5)\<close> divides by it, and the point ends at NaN. After a start at
  \<open>(0, 0)\<close>, \<open>(2, 0)\<close> and a move of both fingers by \<open>(10, 0)\<close> the offset is \<open>(10, 0)\<close>,
  so the content point under the centre \<open>(1, 0)\<close> is \<open>(-9, 0)\<close>; the move to \<open>(-1, 0)\<close>,
  \<open>(3, 0)\<close> is computed from the snapshot and sends that point to \<open>(-19, 0)\<close>.
\<close>

theorem focal_invariance_counterexample:
  "js_gt (scale pinch_started_degenerate) (Fin 0)
   \<and> finger_center (client_at 4 5) (client_at 6 5) = initialTouchCenter pinch_started_degenerate
   \<and> initialTouchCenter pinch_started_degenerate = \<lparr>pt_x = Fin 5, pt_y = Fin 5\<rparr>
   \<and> to_screen
        (scale (handleTouchMove pinch_started_degenerate
                  \<lparr>touches = [client_at 4 5, client_at 6 5]\<rparr>))
        (offset (handleTouchMove pinch_started_degenerate
                  \<lparr>touches = [client_at 4 5, client_at 6 5]\<rparr>))
        (to_content (scale pinch_started_degenerate) (offset pinch_started_degenerate)
           (initialTouchCenter pinch_started_degenerate))
       = \<lparr>pt_x = NaN, pt_y = NaN\<rparr>
   \<and> js_gt (scale pinch_panned) (Fin 0)
   \<and> finger_center (client_at (- 1) 0) (client_at 3 0) = initialTouchCenter pinch_panned
   \<and> initialTouchCenter pinch_panned = \<lparr>pt_x = Fin 1, pt_y = Fin 0\<rparr>
   \<and> to_screen
        (scale (handleTouchMove pinch_panned \<lparr>touches = [client_at (- 1) 0, client_at 3 0]\<rparr>))
        (offset (handleTouchMove pinch_panned \<lparr>touches = [client_at (- 1) 0, client_at 3 0]\<rparr>))
        (to_content (scale pinch_panned) (offset pinch_panned) (initialTouchCenter pinch_panned))
       = \<lparr>pt_x = Fin (- 19), pt_y = Fin 0\<rparr>"
proof -
  have 1: "handleTouchMove pinch_started_degenerate \<lparr>touches = [client_at 4 5, client_at 6 5]\<rparr>
      = pinch_started_degenerate\<lparr>scale := PosInf, offset := \<lparr>pt_x = NegInf, pt_y = NegInf\<rparr>\<rparr>"
    by (simp add: handleTouchMove_def pinch_degenerate_fields signed_inf_def js_sub_def Let_def)
  have 2: "handleTouchMove pinch_panned \<lparr>touches = [client_at (- 1) 0, client_at 3 0]\<rparr>
      = pinch_panned\<lparr>scale := Fin 2, offset := \<lparr>pt_x = Fin (- 1), pt_y = Fin 0\<rparr>\<rparr>"
    by (simp add: handleTouchMove_def pinch_panned_eq pinch_started_fields Let_def)
  show ?thesis
    unfolding 1 2
    by (simp add: pinch_degenerate_fields pinch_panned_eq pinch_started_fields finger_center_def
        to_screen_def to_content_def signed_inf_def js_sub_def)
qed

section \<open>Two fingers moving together\<close>

lemma pinch_same_distance:
  assumes "is_double (initialScale st)"
    and "initialDistanceBetweenFingers st = Fin d0" and "d0 \<noteq> 0"
    and "finger_distance t0 t1 = Fin d0"
  shows "scale (handleTouchMove st \<lparr>touches = t0 # t1 # ts\<rparr>) = initialScale st"
  using assms by (cases "initialScale st") (simp_all add: touch_move_scale is_double_def signed_inf_def)

lemma pinch_translation_offset:
  assumes sc: "initialScale st = Fin s0" "round64 s0 = Fin s0" "1 / 2 ^ 20 \<le> s0" "s0 \<le> 2 ^ 20"
    and dist: "initialDistanceBetweenFingers st = Fin d0" "d0 \<noteq> 0" "finger_distance t0 t1 = Fin d0"
    and off: "initialOffset st = \<lparr>pt_x = Fin ox, pt_y = Fin oy\<rparr>"
      "\<bar>ox\<bar> \<le> 2 ^ 20" "\<bar>oy\<bar> \<le> 2 ^ 20"
    and cen: "initialTouchCenter st = \<lparr>pt_x = Fin cx, pt_y = Fin cy\<rparr>"
      "\<bar>cx\<bar> \<le> 2 ^ 20" "\<bar>cy\<bar> \<le> 2 ^ 20"
    and mid: "finger_center t0 t1 = \<lparr>pt_x = Fin nx, pt_y = Fin ny\<rparr>"
      "\<bar>nx\<bar> \<le> 2 ^ 20" "\<bar>ny\<bar> \<le> 2 ^ 20"
  shows "finite_point (offset (handleTouchMove st \<lparr>touches = t0 # t1 # ts\<rparr>))
     \<and> \<bar>the_real (pt_x (offset (handleTouchMove st \<lparr>touches = t0 # t1 # ts\<rparr>)))
          - (ox + (nx - cx))\<bar> \<le> 1 / 2 ^ 16
     \<and> \<bar>the_real (pt_y (offset (handleTouchMove st \<lparr>touches = t0 # t1 # ts\<rparr>)))
          - (oy + (ny - cy))\<bar> \<le> 1 / 2 ^ 16"
proof -
  have spos: "0 < s0" using sc(3) by (simp add: field_simps; linarith)
  have new: "scale (handleTouchMove st \<lparr>touches = t0 # t1 # ts\<rparr>) = Fin s0"
    using pinch_same_distance [OF _ dist, of ts] sc(1,2) by (simp add: is_double_def)
  have u: "pow2 (- 53) = 1 / 9007199254740992" by (simp add: pow2_def)
  have t: "pow2 (- 1075) \<le> 1 / 2 ^ 30"
    using pow2_mono [of "- 1075" "- 30"] by (simp add: pow2_def [of "- 30"])
  have step: "\<exists>w. round64 v = Fin w \<and> \<bar>w - v\<bar> \<le> 1 / 2 ^ 29" if "\<bar>v\<bar> \<le> 2 ^ 23" for v
  proof -
    have "\<bar>v\<bar> \<le> 2 ^ 100" using that by simp
    then obtain w where w: "round64 v = Fin w"
      "\<bar>w - v\<bar> \<le> \<bar>v\<bar> * pow2 (- 53) + pow2 (- 1075)"
      by (rule round64_close)
    have "\<bar>v\<bar> * pow2 (- 53) \<le> 2 ^ 23 * (1 / 9007199254740992)"
      unfolding u using that by (intro mult_right_mono) simp_all
    then have "\<bar>w - v\<bar> \<le> 1 / 2 ^ 29" using w(2) t by simp
    with w(1) show ?thesis by blast
  qed
  have coord: "\<exists>r. js_add (focal_adjust (Fin c) (Fin b) (Fin s0) (Fin s0))
                      (js_sub (Fin n) (Fin c)) = Fin r
                  \<and> \<bar>r - (b + (n - c))\<bar> \<le> 1 / 2 ^ 16"
    if c: "\<bar>c\<bar> \<le> 2 ^ 20" and b: "\<bar>b\<bar> \<le> 2 ^ 20" and n: "\<bar>n\<bar> \<le> 2 ^ 20" for c b n
  proof -
    obtain x' where x: "focal_adjust (Fin c) (Fin b) (Fin s0) (Fin s0) = Fin x'"
      "\<bar>(c - b) / s0 * s0 + x' - c\<bar> \<le> 1 / 2 ^ 17"
      using focal_adjust_close [OF c b sc(3,4), of s0] spos by auto
    have x1: "\<bar>x' - b\<bar> \<le> 1 / 131072" using x(2) spos by simp
    have "\<bar>n - c\<bar> \<le> 2 ^ 23" using n c by simp
    then obtain v where v: "round64 (n - c) = Fin v" "\<bar>v - (n - c)\<bar> \<le> 1 / 2 ^ 29"
      using step by blast
    then have v1: "\<bar>v - (n - c)\<bar> \<le> 1 / 536870912" by simp
    have b1: "\<bar>b\<bar> \<le> 1048576" "\<bar>n\<bar> \<le> 1048576" "\<bar>c\<bar> \<le> 1048576" using b n c by simp_all
    have "\<bar>x' + v\<bar> \<le> 8388608" using x1 v1 b1 by linarith
    then have "\<bar>x' + v\<bar> \<le> 2 ^ 23" by simp
    then obtain r where r: "round64 (x' + v) = Fin r" "\<bar>r - (x' + v)\<bar> \<le> 1 / 2 ^ 29"
      using step by blast
    then have r1: "\<bar>r - (x' + v)\<bar> \<le> 1 / 536870912" by simp
    have "\<bar>r - (b + (n - c))\<bar> \<le> 1 / 65536" using x1 v1 r1 by linarith
    then have "\<bar>r - (b + (n - c))\<bar> \<le> 1 / 2 ^ 16" by simp
    moreover have "js_add (focal_adjust (Fin c) (Fin b) (Fin s0) (Fin s0))
                      (js_sub (Fin n) (Fin c)) = Fin r"
      by (simp add: x(1) v(1) r(1))
    ultimately show ?thesis by blast
  qed
  obtain rx where rx: "js_add (focal_adjust (Fin cx) (Fin ox) (Fin s0) (Fin s0))
                      (js_sub (Fin nx) (Fin cx)) = Fin rx" "\<bar>rx - (ox + (nx - cx))\<bar> \<le> 1 / 2 ^ 16"
    using coord [OF cen(2) off(2) mid(2)] by blast
  obtain ry where ry: "js_add (focal_adjust (Fin cy) (Fin oy) (Fin s0) (Fin s0))
                      (js_sub (Fin ny) (Fin cy)) = Fin ry" "\<bar>ry - (oy + (ny - cy))\<bar> \<le> 1 / 2 ^ 16"
    using coord [OF cen(3) off(3) mid(3)] by blast
  have "offset (handleTouchMove st \<lparr>touches = t0 # t1 # ts\<rparr>) = \<lparr>pt_x = Fin rx, pt_y = Fin ry\<rparr>"
    using rx(1) ry(1)
    by (simp add: touch_move_offset [of st t0 t1 ts] new sc(1) off(1) cen(1) mid(1)
        del: js_sub_Fin)
  then show ?thesis
    using rx(2) ry(2) by (simp add: finite_point_def)
qed

lemma pinch_started_49_fields:
  "initialScale pinch_started_49 = Fin 49"
  "initialOffset pinch_started_49 = \<lparr>pt_x = Fin 0, pt_y = Fin 0\<rparr>"
  "initialTouchCenter pinch_started_49 = \<lparr>pt_x = Fin 1, pt_y = Fin 0\<rparr>"
  "initialDistanceBetweenFingers pinch_started_49 = Fin 2"
  by (simp_all add: pinch_started_49_def touch_start_snapshot finger_distance_def
      finger_center_def mount_def origin_def Let_def)

lemma forty_nine:
  "round64 (1 / 49) = Fin (5882252574524729 / 288230376151711744)"
  "round64 (288230376151711721 / 288230376151711744) = Fin (9007199254740991 / 9007199254740992)"
  "round64 (9007199254740991 / 9007199254740992) = Fin (9007199254740991 / 9007199254740992)"
  "round64 (1 / 9007199254740992) = Fin (1 / 9007199254740992)"
  using round64_at [of "- 6" "1 / 49"]
    round64_at [of "- 1" "288230376151711721 / 288230376151711744"]
    round64_exact [of 9007199254740991 "- 53"] round64_exact [of 1 "- 53"]
  by (simp_all add: pow2_def round_half_even_def Let_def)

text \<open>
  C6, pinch pan and zoom decomposition, as the handler has it. When a touch move shows the
  two fingers at the recorded distance, which is finite and not zero, the scale it sets is
  the recorded scale, exactly. When moreover the recorded scale lies between \<open>2 ^ -20\<close> and
  \<open>2 ^ 20\<close> and the recorded offset, the recorded centre and the current finger midpoint
  have coordinates of magnitude at most \<open>2 ^ 20\<close>, the offset it sets is finite and within
  \<open>2 ^ -16\<close>, in each coordinate, of the recorded offset plus the displacement of the
  midpoint from the recorded centre.
\<close>

theorem pinch_translation:
  "(is_double (initialScale st)
      \<and> initialDistanceBetweenFingers st = Fin d0 \<and> d0 \<noteq> 0 \<and> finger_distance t0 t1 = Fin d0
    \<longrightarrow> scale (handleTouchMove st \<lparr>touches = t0 # t1 # ts\<rparr>) = initialScale st)
   \<and> (initialScale st = Fin s0 \<and> is_double (Fin s0) \<and> 1 / 2 ^ 20 \<le> s0 \<and> s0 \<le> 2 ^ 20
      \<and> initialDistanceBetweenFingers st = Fin d0 \<and> d0 \<noteq> 0 \<and> finger_distance t0 t1 = Fin d0
      \<and> initialOffset st = \<lparr>pt_x = Fin ox, pt_y = Fin oy\<rparr> \<and> \<bar>ox\<bar> \<le> 2 ^ 20 \<and> \<bar>oy\<bar> \<le> 2 ^ 20
      \<and> initialTouchCenter st = \<lparr>pt_x = Fin cx, pt_y = Fin cy\<rparr>
      \<and> \<bar>cx\<bar> \<le> 2 ^ 20 \<and> \<bar>cy\<bar> \<le> 2 ^ 20
      \<and> finger_center t0 t1 = \<lparr>pt_x = Fin nx, pt_y = Fin ny\<rparr>
      \<and> \<bar>nx\<bar> \<le> 2 ^ 20 \<and> \<bar>ny\<bar> \<le> 2 ^ 20
    \<longrightarrow>
      finite_point (offset (handleTouchMove st \<lparr>touches = t0 # t1 # ts\<rparr>))
      \<and> \<bar>the_real (pt_x (offset (handleTouchMove st \<lparr>touches = t0 # t1 # ts\<rparr>)))
           - (ox + (nx - cx))\<bar> \<le> 1 / 2 ^ 16
      \<and> \<bar>the_real (pt_y (offset (handleTouchMove st \<lparr>touches = t0 # t1 # ts\<rparr>)))
           - (oy + (ny - cy))\<bar> \<le> 1 / 2 ^ 16)"
  using pinch_same_distance [of st d0 t0 t1 ts]
    pinch_translation_offset [of st s0 d0 t0 t1 ox oy cx cy nx ny ts]
  by (simp add: is_double_def)

text \<open>
  The pane at scale 49 whose pinch started at \<open>(0, 0)\<close> and \<open>(2, 0)\<close>, with both fingers
  moved by \<open>(7, -3)\<close>.
\<close>

theorem pinch_translation_witness:
  "is_double (initialScale pinch_started_49)
   \<and> initialDistanceBetweenFingers pinch_started_49 = Fin 2 \<and> (2 :: real) \<noteq> 0
   \<and> finger_distance (client_at 7 (- 3)) (client_at 9 (- 3)) = Fin 2
   \<and> scale (handleTouchMove pinch_started_49 \<lparr>touches = [client_at 7 (- 3), client_at 9 (- 3)]\<rparr>)
       = Fin 49
   \<and> finger_center (client_at 7 (- 3)) (client_at 9 (- 3)) = \<lparr>pt_x = Fin 8, pt_y = Fin (- 3)\<rparr>
   \<and> finite_point
        (offset (handleTouchMove pinch_started_49 \<lparr>touches = [client_at 7 (- 3), client_at 9 (- 3)]\<rparr>))
   \<and> \<bar>the_real (pt_x (offset (handleTouchMove pinch_started_49
                                  \<lparr>touches = [client_at 7 (- 3), client_at 9 (- 3)]\<rparr>)))
        - (0 + (8 - 1))\<bar> \<le> 1 / 2 ^ 16
   \<and> \<bar>the_real (pt_y (offset (handleTouchMove pinch_started_49
                                  \<lparr>touches = [client_at 7 (- 3), client_at 9 (- 3)]\<rparr>)))
        - (0 + (- 3 - 0))\<bar> \<le> 1 / 2 ^ 16"
proof -
  have d: "finger_distance (client_at 7 (- 3)) (client_at 9 (- 3)) = Fin 2"
    by (simp add: finger_distance_def Let_def)
  have mid: "finger_center (client_at 7 (- 3)) (client_at 9 (- 3)) = \<lparr>pt_x = Fin 8, pt_y = Fin (- 3)\<rparr>"
    by (simp add: finger_center_def)
  show ?thesis
    using pinch_translation [of pinch_started_49 2 "client_at 7 (- 3)" "client_at 9 (- 3)" "[]"
        49 0 0 1 0 8 "- 3"]
    by (simp add: d mid pinch_started_49_fields is_double_def)
qed

text \<open>
  The same pane and a touch move that shows the fingers where they started, moved by
  \<open>(0, 0)\<close>: \<^verbatim>\<open>1 / 49 * 49\<close> is \<open>1 - 2 ^ -53\<close> in binary64, and the horizontal offset
  becomes \<open>2 ^ -53\<close>, not the recorded 0.
\<close>

theorem pinch_translation_counterexample:
  "initialScale pinch_started_49 = Fin 49
   \<and> initialOffset pinch_started_49 = \<lparr>pt_x = Fin 0, pt_y = Fin 0\<rparr>
   \<and> initialDistanceBetweenFingers pinch_started_49 = Fin 2
   \<and> finger_distance (client_at 0 0) (client_at 2 0) = Fin 2
   \<and> offset (handleTouchMove pinch_started_49 \<lparr>touches = [client_at 0 0, client_at 2 0]\<rparr>)
       = \<lparr>pt_x = Fin (1 / 2 ^ 53), pt_y = Fin 0\<rparr>"
proof -
  have d: "finger_distance (client_at 0 0) (client_at 2 0) = Fin 2"
    by (simp add: finger_distance_def Let_def)
  have mid: "finger_center (client_at 0 0) (client_at 2 0) = \<lparr>pt_x = Fin 1, pt_y = Fin 0\<rparr>"
    by (simp add: finger_center_def)
  have sc: "scale (handleTouchMove pinch_started_49 \<lparr>touches = [client_at 0 0, client_at 2 0]\<rparr>)
      = Fin 49"
    by (simp add: touch_move_scale d pinch_started_49_fields)
  have "offset (handleTouchMove pinch_started_49 \<lparr>touches = [client_at 0 0, client_at 2 0]\<rparr>)
       = \<lparr>pt_x = Fin (1 / 2 ^ 53), pt_y = Fin 0\<rparr>"
    by (simp add: touch_move_offset [of pinch_started_49 "client_at 0 0" "client_at 2 0" "[]"]
        sc mid pinch_started_49_fields focal_adjust_def forty_nine)
  then show ?thesis
    by (simp add: d pinch_started_49_fields)
qed

section \<open>The sign of the scale\<close>




section \<open>A pinch that starts with both touches at one position\<close>

text \<open>
  C3, as the handlers have it. Neither touch handler has a case for a recorded finger
  distance of 0. A touch start with both touches at one finite position records the
  distance 0, and then, after any touch moves, every touch move with two touches sets a
  scale that is not finite: an infinity or NaN.
\<close>

theorem degenerate_pinch_not_guarded:
  "initialDistanceBetweenFingers
     (handleTouchStart st \<lparr>touches = client_at ax ay # client_at ax ay # ts\<rparr>) = Fin 0
   \<and> \<not> isFinite (scale (handleTouchMove
          (foldl handleTouchMove
             (handleTouchStart st \<lparr>touches = client_at ax ay # client_at ax ay # ts\<rparr>) moves)
          \<lparr>touches = u0 # u1 # us\<rparr>))"
proof -
  have d0: "initialDistanceBetweenFingers
     (handleTouchStart st \<lparr>touches = client_at ax ay # client_at ax ay # ts\<rparr>) = Fin 0"
    by (simp add: touch_start_snapshot finger_distance_def Let_def)
  then show ?thesis
    by (simp add: touch_move_scale touch_moves_snapshot mul_not_finite div_zero_not_finite)
qed

text \<open>
  A fresh pane, a touch start with both touches at \<open>(3, 4)\<close>: the recorded distance is 0.
  A move to \<open>(0, 0)\<close> and \<open>(2, 0)\<close> then sets the scale to \<open>1 * (2 / 0)\<close>, which is
  \<open>Infinity\<close>, and a move to two touches at \<open>(1, 1)\<close> sets it to \<open>1 * (0 / 0)\<close>, NaN.
\<close>

theorem degenerate_pinch_counterexample:
  "initialDistanceBetweenFingers
     (handleTouchStart fresh \<lparr>touches = [client_at 3 4, client_at 3 4]\<rparr>) = Fin 0
   \<and> scale (handleTouchMove (handleTouchStart fresh \<lparr>touches = [client_at 3 4, client_at 3 4]\<rparr>)
        \<lparr>touches = [client_at 0 0, client_at 2 0]\<rparr>) = PosInf
   \<and> scale (handleTouchMove (handleTouchStart fresh \<lparr>touches = [client_at 3 4, client_at 3 4]\<rparr>)
        \<lparr>touches = [client_at 1 1, client_at 1 1]\<rparr>) = NaN"
  by (simp add: touch_start_snapshot touch_move_scale finger_distance_def
      fresh_def mount_def origin_def signed_inf_def Let_def)

section \<open>Drag and pinch together\<close>

text \<open>
  C4, as the handlers have it. The two kinds of session do not know of each other. A touch
  start leaves the drag session and the transform as they are; a pointer-down leaves the
  pinch snapshot and the transform as they are and sets \<^verbatim>\<open>isDragging\<close> whatever the
  snapshot holds; a touch move does the same whatever the drag session holds, and a
  pointer move the same whatever the pinch snapshot holds. Nothing cancels or ignores a
  session because the other kind is active.
\<close>

theorem sessions_independent:
  "drag_session (handleTouchStart st touch) = drag_session st
   \<and> transform (handleTouchStart st touch) = transform st
   \<and> pinch_snapshot (handlePointerDown st pointer) = pinch_snapshot st
   \<and> transform (handlePointerDown st pointer) = transform st
   \<and> isDragging (handlePointerDown st pointer)
   \<and> handleTouchMove (st\<lparr>isDragging := flag, dragPositionStart := p, dragPositionOffsetStart := q\<rparr>)
        touch
       = (handleTouchMove st touch)
           \<lparr>isDragging := flag, dragPositionStart := p, dragPositionOffsetStart := q\<rparr>
   \<and> handlePointerMove (st\<lparr>initialDistanceBetweenFingers := d, initialScale := s,
                             initialTouchCenter := c, initialOffset := off\<rparr>) pointer
       = (handlePointerMove st pointer)
           \<lparr>initialDistanceBetweenFingers := d, initialScale := s,
            initialTouchCenter := c, initialOffset := off\<rparr>"
  by (simp add: handleTouchStart_def handlePointerDown_def handleTouchMove_def
      handlePointerMove_def drag_session_def pinch_snapshot_def transform_def Let_def)

text \<open>
  A pointer-down at \<open>(0, 0)\<close> on a fresh pane and then a touch start at \<open>(0, 0)\<close>,
  \<open>(2, 0)\<close>: the drag is still active, and from this one state a pointer move to
  \<open>(5, 7)\<close> changes the offset and a touch move to \<open>(0, 0)\<close>, \<open>(4, 0)\<close> changes the scale.
\<close>

theorem session_exclusivity_counterexample:
  "isDragging drag_and_pinch
   \<and> transform drag_and_pinch = (Fin 1, origin)
   \<and> transform (handlePointerMove drag_and_pinch (client_at 5 7))
       = (Fin 1, \<lparr>pt_x = Fin 5, pt_y = Fin 7\<rparr>)
   \<and> transform (handleTouchMove drag_and_pinch \<lparr>touches = [client_at 0 0, client_at 4 0]\<rparr>)
       = (Fin 2, \<lparr>pt_x = Fin 0, pt_y = Fin 0\<rparr>)"
  by (simp add: drag_and_pinch_def handleTouchStart_def handleTouchMove_def
      handlePointerDown_def handlePointerMove_def fresh_def mount_def origin_def
      transform_def Let_def)

section \<open>Moves without a session\<close>

text \<open>
  C5, as the handlers have it. A pointer move while \<^verbatim>\<open>isDragging\<close> is false returns the
  state it was given, and so does a touch move with fewer than two touches; the transform
  is then unchanged. The touch move has no other guard.
\<close>

theorem stray_move_noop:
  "(\<not> isDragging st \<longrightarrow> handlePointerMove st pointer = st)
   \<and> (length (touches touch) < 2 \<longrightarrow> handleTouchMove st touch = st)"
  by (simp add: handlePointerMove_def handleTouchMove_def)

theorem stray_move_noop_witness:
  "\<not> isDragging fresh \<and> handlePointerMove fresh (client_at 8 9) = fresh
   \<and> length (touches \<lparr>touches = [client_at 8 9]\<rparr>) < 2
   \<and> handleTouchMove fresh \<lparr>touches = [client_at 8 9]\<rparr> = fresh"
  using stray_move_noop [of fresh "client_at 8 9" "\<lparr>touches = [client_at 8 9]\<rparr>"]
  by (simp add: fresh_def mount_def)

text \<open>
  A fresh pane has seen no start event: no drag is active and the pinch snapshot holds the
  initial values of its hooks. A touch move with touches at \<open>(0, 0)\<close> and \<open>(2, 0)\<close> still
  writes the transform: the scale becomes \<open>1 * (2 / 0)\<close> and the offset NaN.
\<close>

theorem stray_move_counterexample:
  "\<not> isDragging fresh
   \<and> pinch_snapshot fresh = (Fin 0, Fin 1, empty_object, empty_object)
   \<and> transform fresh = (Fin 1, origin)
   \<and> transform (handleTouchMove fresh \<lparr>touches = [client_at 0 0, client_at 2 0]\<rparr>)
       = (PosInf, \<lparr>pt_x = NaN, pt_y = NaN\<rparr>)"
  by (simp add: handleTouchMove_def fresh_def mount_def origin_def empty_object_def
      transform_def pinch_snapshot_def signed_inf_def js_sub_def Let_def)

section \<open>Wheel\<close>

text \<open>
  C8, wheel step size. A wheel event multiplies the scale by \<open>1 - factor\<close> when
  \<^verbatim>\<open>deltaY > 0\<close> and by \<open>1 + factor\<close> otherwise, the factor being the Number \<^verbatim>\<open>0.1\<close>; on a
  fresh pane (scale 1, offset \<open>(0, 0)\<close>) a wheel event at \<open>(100, 100)\<close> with
  \<^verbatim>\<open>deltaY = 1\<close> gives the scale \<^verbatim>\<open>0.9\<close>, the Number nearest to nine tenths, and the
  offset \<open>(10, 10)\<close>, and changes nothing else.
\<close>

theorem wheel_step_size:
  "scale (handleWheel st event) =
     (if js_gt (deltaY event) (Fin 0)
      then js_mul (scale st) (js_sub (Fin 1) SCROLLWHEEL_FACTOR)
      else js_mul (scale st) (js_add (Fin 1) SCROLLWHEEL_FACTOR))
   \<and> SCROLLWHEEL_FACTOR = round64 (1 / 10)
   \<and> handleWheel fresh (wheel_at 100 100 1) =
       fresh\<lparr>scale := round64 (9 / 10), offset := \<lparr>pt_x = Fin 10, pt_y = Fin 10\<rparr>\<rparr>"
proof -
  have "handleWheel fresh (wheel_at 100 100 1) =
       fresh\<lparr>scale := round64 (9 / 10), offset := \<lparr>pt_x = Fin 10, pt_y = Fin 10\<rparr>\<rparr>"
    by (simp add: handleWheel_def Let_def factor_down nine_tenths nine_tenths_double ninety
        fresh_def mount_def origin_def wheel_at_def)
  then show ?thesis
    by (simp add: handleWheel_def Let_def SCROLLWHEEL_FACTOR_def)
qed

section \<open>Drag\<close>









section \<open>Wheel events in a row\<close>

lemma wheel_strict:
  assumes d: "round64 s = Fin s" and n: "pow2 (- 1022) \<le> s"
  shows "js_gt (Fin s) (round64 (s * (8106479329266893 / 9007199254740992)))"
    and "js_gt (round64 (s * (2476979795053773 / 2251799813685248))) (Fin s)"
proof -
  have spos: "0 < s" using n pow2_pos [of "- 1022"] by linarith
  have top: "s < pow2 1024" by (rule double_nearest(2) [OF d])
  have min: "pow2 (- 1074) \<le> s * pow2 (- 52)"
  proof -
    have "pow2 (- 1074) = pow2 (- 1022) * pow2 (- 52)" using pow2_add [of "- 1022" "- 52"] by simp
    also have "\<dots> \<le> s * pow2 (- 52)" using n by (intro mult_right_mono) simp_all
    finally show ?thesis .
  qed
  have p52: "pow2 (- 52) = 1 / 4503599627370496" by (simp add: pow2_def)
  have err: "\<bar>nearest x - x\<bar> \<le> s / 4503599627370496" if "0 < x" and "x \<le> s * 2" for x
  proof -
    have "x \<noteq> 0" using that by simp
    then have "pow2 (ulp_exponent x) \<le> max (pow2 (- 1074)) (\<bar>x\<bar> * pow2 (- 52))"
      by (rule ulp_small)
    moreover have "\<bar>x\<bar> * pow2 (- 52) \<le> s * 2 * pow2 (- 52)"
      using that by (intro mult_right_mono) simp_all
    ultimately have "pow2 (ulp_exponent x) \<le> s * 2 * pow2 (- 52)"
      using min spos by (simp add: p52)
    then have "pow2 (ulp_exponent x) / 2 \<le> s / 4503599627370496"
      by (simp add: p52)
    then show ?thesis using nearest_err [of x] by linarith
  qed
  define lo where "lo = s * (8106479329266893 / 9007199254740992)"
  define hi where "hi = s * (2476979795053773 / 2251799813685248)"
  have lo: "0 < lo" "lo \<le> s * 2" "lo \<le> s * (91 / 100)" "s * (9 / 10) \<le> lo"
    using spos by (simp_all add: lo_def)
  have hi: "0 < hi" "hi \<le> s * 2" "s * (109 / 100) \<le> hi"
    using spos by (simp_all add: hi_def)
  have nlo: "nearest lo < s" "0 < nearest lo"
    using err [OF lo(1,2)] lo spos by (simp_all add: abs_le_iff; linarith)+
  have nhi: "s < nearest hi"
    using err [OF hi(1,2)] hi spos by (simp add: abs_le_iff; linarith)
  show "js_gt (Fin s) (round64 (s * (8106479329266893 / 9007199254740992)))"
    using nlo top lo(1) pow2_pos [of 1024] unfolding lo_def [symmetric]
    by (simp add: round64_def del: pow2_pos; linarith)
  show "js_gt (round64 (s * (2476979795053773 / 2251799813685248))) (Fin s)"
    using nhi spos hi(1) pow2_pos [of 1024] unfolding hi_def [symmetric]
    by (simp add: round64_def del: pow2_pos; linarith)
qed

text \<open>
  C9, scale under the wheel, as the handler has it. From a scale above zero no list of
  wheel events brings the scale to zero or below, or to NaN. From a finite scale of at
  least \<open>2 ^ -1022\<close>, a wheel event with \<^verbatim>\<open>deltaY > 0\<close> gives a strictly smaller scale and
  any other wheel event a strictly larger one, which may be \<open>Infinity\<close>.
\<close>

theorem wheel_monotone:
  assumes "is_double (scale st)" and "js_gt (scale st) (Fin 0)"
  shows "js_gt (scale (foldl handleWheel st events)) (Fin 0)
     \<and> (scale st = Fin s \<and> pow2 (- 1022) \<le> s \<longrightarrow>
          (js_gt (deltaY event) (Fin 0) \<longrightarrow> js_gt (scale st) (scale (handleWheel st event)))
        \<and> (\<not> js_gt (deltaY event) (Fin 0) \<longrightarrow> js_gt (scale (handleWheel st event)) (scale st)))"
proof -
  have "above_zero (scale st)" using assms by (rule double_above)
  then have "js_gt (scale (foldl handleWheel st events)) (Fin 0)"
    by (intro above_zero_gt wheels_above)
  moreover have "js_gt (scale st) (scale (handleWheel st event))"
    if "scale st = Fin s" and "pow2 (- 1022) \<le> s" and "js_gt (deltaY event) (Fin 0)"
    using that assms(1) wheel_strict(1) [of s] by (simp add: wheel_scale is_double_def)
  moreover have "js_gt (scale (handleWheel st event)) (scale st)"
    if "scale st = Fin s" and "pow2 (- 1022) \<le> s" and "\<not> js_gt (deltaY event) (Fin 0)"
    using that assms(1) wheel_strict(2) [of s] by (simp add: wheel_scale is_double_def)
  ultimately show ?thesis by blast
qed

theorem wheel_monotone_witness:
  "is_double (scale fresh) \<and> js_gt (scale fresh) (Fin 0)
   \<and> js_gt (scale (foldl handleWheel fresh [wheel_at 100 100 1, wheel_at 3 4 (- 1)])) (Fin 0)
   \<and> scale fresh = Fin 1 \<and> pow2 (- 1022) \<le> 1
   \<and> js_gt (scale fresh) (scale (handleWheel fresh (wheel_at 100 100 1)))
   \<and> js_gt (scale (handleWheel fresh (wheel_at 100 100 (- 1)))) (scale fresh)"
proof -
  have one: "pow2 (- 1022) \<le> 1" using pow2_mono [of "- 1022" 0] by (simp add: pow2_def [of 0])
  show ?thesis
    using one wheel_monotone [of fresh "[wheel_at 100 100 1, wheel_at 3 4 (- 1)]" 1 "wheel_at 100 100 1"]
      wheel_monotone [of fresh "[]" 1 "wheel_at 100 100 (- 1)"]
    by (simp add: fresh_def mount_def wheel_at_def is_double_def)
qed

lemma tiny_double: "round64 tiny_scale = Fin tiny_scale"
  using round64_exact [of 5 "- 1074"] by (simp add: tiny_scale_def)

lemma tiny_down:
  "round64 (tiny_scale * 8106479329266893 / 9007199254740992) = Fin tiny_scale"
proof -
  define x where "x = tiny_scale * 8106479329266893 / 9007199254740992"
  have small: "\<bar>x\<bar> < pow2 (- 1022)"
  proof -
    have "pow2 (- 1022) = pow2 (- 1074) * pow2 52" using pow2_add [of "- 1074" 52] by simp
    then show ?thesis by (simp add: x_def tiny_scale_def pow2_def [of 52] abs_mult)
  qed
  have nz: "x \<noteq> 0" by (simp add: x_def tiny_scale_def)
  have q: "x / pow2 (- 1074) = 40532396646334465 / 9007199254740992"
    by (simp add: x_def tiny_scale_def)
  have r: "round_half_even (40532396646334465 / 9007199254740992) = 5"
    by (simp add: round_half_even_def Let_def)
  have big: "\<not> pow2 1024 \<le> 5 * pow2 (- 1074)" "\<not> 5 * pow2 (- 1074) \<le> - pow2 1024"
  proof -
    have "pow2 (- 1074) \<le> pow2 0" by (simp del: pow2_pos)
    moreover have "pow2 0 = 1" "(8 :: real) \<le> pow2 1024"
      using pow2_mono [of 3 1024] by (simp_all add: pow2_def [of 0] pow2_def [of 3])
    ultimately show "\<not> pow2 1024 \<le> 5 * pow2 (- 1074)" "\<not> 5 * pow2 (- 1074) \<le> - pow2 1024"
      using pow2_pos [of "- 1074"] by linarith+
  qed
  have "round64 x =
     (let v = of_int (round_half_even (x / pow2 (- 1074))) * pow2 (- 1074)
      in if pow2 1024 \<le> v then PosInf else if v \<le> - pow2 1024 then NegInf else Fin v)"
    by (rule round64_subnormal [OF nz small])
  also have "\<dots> = Fin (5 * pow2 (- 1074))"
    unfolding q r Let_def using big by simp
  finally show ?thesis by (simp only: x_def tiny_scale_def)
qed

text \<open>
  A pane whose scale is five times the smallest positive binary64 value. A wheel event with
  \<^verbatim>\<open>deltaY = 1\<close> multiplies by \<^verbatim>\<open>0.9\<close>, a little more than nine tenths; the product,
  a little more than four and a half times the smallest value, rounds back to five times
  it, and the scale has not decreased.
\<close>

theorem wheel_monotone_counterexample:
  "is_double (scale tiny_pane) \<and> js_gt (scale tiny_pane) (Fin 0)
   \<and> js_gt (deltaY (wheel_at 0 0 1)) (Fin 0)
   \<and> scale (handleWheel tiny_pane (wheel_at 0 0 1)) = scale tiny_pane
   \<and> \<not> js_gt (scale tiny_pane) (scale (handleWheel tiny_pane (wheel_at 0 0 1)))"
proof -
  have "0 < tiny_scale" by (simp add: tiny_scale_def)
  then show ?thesis
    by (simp add: wheel_scale tiny_pane_def mount_def is_double_def tiny_double tiny_down
        wheel_at_def)
qed

section \<open>Touch start\<close>

text \<open>
  C10, a touch start with fewer than two touches. The handler returns the state it was
  given: scale and offset, the four fields of the pinch snapshot and the three fields of
  the drag session are all as before.
\<close>

theorem touch_start_single_noop:
  "length (touches event) < 2 \<Longrightarrow> handleTouchStart st event = st"
  by (simp add: handleTouchStart_def)

theorem touch_start_single_noop_witness:
  "length (touches \<lparr>touches = [client_at 5 7]\<rparr>) < 2 \<and>
   handleTouchStart fresh \<lparr>touches = [client_at 5 7]\<rparr> = fresh"
  using touch_start_single_noop [of "\<lparr>touches = [client_at 5 7]\<rparr>" fresh] by simp

end
